theory Spec2Isabelle
  imports Main
begin

section \<open>Docker network policy host endpoints: the model\<close>

text \<open>
  A shallow embedding of \<^verbatim>\<open>docker_netpol_heps.py\<close>. A Python \<^verbatim>\<open>str\<close> is a
  \<^typ>\<open>string\<close>, each character read as a code point below 256. A \<^verbatim>\<open>dict\<close> with
  string keys is an association list in insertion order; a lookup takes the first
  binding of the key.
\<close>

subsection \<open>Values\<close>

type_synonym strmap = "(string \<times> string) list"

text \<open>
  A member of the JSON object that \<^verbatim>\<open>docker network inspect\<close> prints: the key can be
  missing, it can hold JSON \<^verbatim>\<open>null\<close>, or it holds a mapping of strings.
\<close>

datatype 'a field = Absent | Null | Dict 'a

record network =
  Name :: string
  Labels :: "strmap field"
  Options :: "strmap field"

text \<open>Documents that are serialised (JSON listing, YAML manifest).\<close>

datatype pyval = PStr string | PList "pyval list" | PDict "(string \<times> pyval) list"

record hep_data =
  manifest :: pyval
  filename :: string
  network_name :: string
  bridge_name :: string
  labels :: strmap

datatype exn = SystemExit nat | OSError string | AttributeError | KeyError string | TypeError

datatype mark = Check | Cross

text \<open>
  What a run does, in order. \<open>Exec\<close> is a \<^verbatim>\<open>subprocess.run\<close> of a docker command,
  \<open>CallHelper\<close> the \<^verbatim>\<open>subprocess.run\<close> of the apply helper with the YAML of the
  given document on its standard input, \<open>WriteYaml\<close> the YAML dump of a document into a
  file. \<open>StdoutMark\<close> is a printed line that starts with U+2713 (\<open>Check\<close>) or U+2717
  (\<open>Cross\<close>). \<open>Traceback\<close> is the interpreter's report of an uncaught exception on
  the error stream. File-system calls are taken to succeed.
\<close>

datatype event =
    Stdout string
  | StdoutMark mark string
  | Stderr string
  | Traceback exn
  | Exec "string list"
  | Makedirs string
  | WriteYaml string pyval
  | CallHelper "string list" pyval

type_synonym 'a io = "event list \<times> (exn + 'a)"

text \<open>
  The outcome of \<^verbatim>\<open>subprocess.run(cmd, check=True)\<close>: the captured standard output of a
  run with status 0, \<^verbatim>\<open>CalledProcessError\<close> (with its \<^verbatim>\<open>str\<close>), or the process could
  not be started at all (\<^verbatim>\<open>OSError\<close>, for instance \<^verbatim>\<open>FileNotFoundError\<close>).
\<close>

datatype proc = Completed string | NonZeroExit string | NotStarted string

text \<open>
  The outcome of running the apply helper: success, \<^verbatim>\<open>CalledProcessError\<close> (with the
  captured standard error), or any other exception (with its \<^verbatim>\<open>str\<close>).
\<close>

datatype helper_result = HelperOk | HelperFailed string | HelperException string

text \<open>
  The world outside the script. \<open>subprocess_run\<close> answers the docker commands.
  \<open>json_loads0\<close> is \<^verbatim>\<open>json.loads(text)[0]\<close> on the output of a successful
  \<^verbatim>\<open>docker network inspect\<close>, which is a JSON array of one descriptor. \<open>helper_run k\<close>
  answers the \<open>k\<close>-th call of the apply helper in this run (counted from 0).
\<close>

record env =
  subprocess_run :: "string list \<Rightarrow> proc"
  json_loads0 :: "string \<Rightarrow> network"
  helper_run :: "nat \<Rightarrow> string list \<Rightarrow> pyval \<Rightarrow> helper_result"

record args =
  args_node_name :: string
  args_apply :: bool
  args_dry_run :: bool
  args_output_dir :: "string option"

subsection \<open>Library functions\<close>

definition isspace :: "char \<Rightarrow> bool" where
  "isspace c = (let n = (of_char c :: nat) in
     (9 \<le> n \<and> n \<le> 13) \<or> (28 \<le> n \<and> n \<le> 32) \<or> n = 133 \<or> n = 160)"

definition strip :: "string \<Rightarrow> string" where
  "strip s = rev (dropWhile isspace (rev (dropWhile isspace s)))"

text \<open>\<^verbatim>\<open>s.split('\n')\<close>\<close>

fun split_nl :: "string \<Rightarrow> string list" where
  "split_nl [] = [[]]"
| "split_nl (c # cs) =
     (if c = CHR 0x0A then [] # split_nl cs
      else (case split_nl cs of [] \<Rightarrow> [[c]] | p # ps \<Rightarrow> (c # p) # ps))"

text \<open>\<^verbatim>\<open>sep.join(xs)\<close>\<close>

fun join :: "string \<Rightarrow> string list \<Rightarrow> string" where
  "join sep [] = []"
| "join sep [x] = x"
| "join sep (x # y # ys) = x @ sep @ join sep (y # ys)"

text \<open>\<^verbatim>\<open>d.get(key, default)\<close> on a dict.\<close>

definition dict_get :: "strmap \<Rightarrow> string \<Rightarrow> string \<Rightarrow> string" where
  "dict_get d k dflt = (case map_of d k of None \<Rightarrow> dflt | Some v \<Rightarrow> v)"

text \<open>
  \<^verbatim>\<open>network.get(key, {})\<close>: the default only replaces a missing key. The result
  \<open>None\<close> is Python's \<^verbatim>\<open>None\<close>.
\<close>

definition field_get :: "'a field \<Rightarrow> 'a \<Rightarrow> 'a option" where
  "field_get f dflt = (case f of Absent \<Rightarrow> Some dflt | Null \<Rightarrow> None | Dict d \<Rightarrow> Some d)"

text \<open>\<^verbatim>\<open>os.path.join(a, b)\<close> on POSIX.\<close>

definition os_path_join :: "string \<Rightarrow> string \<Rightarrow> string" where
  "os_path_join a b =
     (if b \<noteq> [] \<and> hd b = CHR ''/'' then b
      else if a = [] \<or> last a = CHR ''/'' then a @ b
      else a @ ''/'' @ b)"

definition digit :: "nat \<Rightarrow> char" where
  "digit d = char_of (48 + d)"

text \<open>\<^verbatim>\<open>str(n)\<close> of a natural number.\<close>

fun str_nat :: "nat \<Rightarrow> string" where
  "str_nat n = (if n < 10 then [digit n] else str_nat (n div 10) @ [digit (n mod 10)])"

declare str_nat.simps [simp del]

definition hex_digit :: "nat \<Rightarrow> char" where
  "hex_digit d = (if d < 10 then char_of (48 + d) else char_of (87 + d))"

text \<open>
  \<^verbatim>\<open>json.dumps(v, indent=2)\<close>, with \<^verbatim>\<open>ensure_ascii\<close> at its default: every character
  outside \<^verbatim>\<open>' '..'~'\<close>, the quote and the backslash are escaped.
\<close>

definition json_char :: "char \<Rightarrow> string" where
  "json_char c = (let n = (of_char c :: nat) in
     if c = CHR 0x22 then [CHR 0x5C, CHR 0x22]
     else if c = CHR 0x5C then [CHR 0x5C, CHR 0x5C]
     else if c = CHR 0x0A then [CHR 0x5C, CHR ''n'']
     else if c = CHR 0x0D then [CHR 0x5C, CHR ''r'']
     else if c = CHR 0x09 then [CHR 0x5C, CHR ''t'']
     else if c = CHR 0x08 then [CHR 0x5C, CHR ''b'']
     else if c = CHR 0x0C then [CHR 0x5C, CHR ''f'']
     else if 32 \<le> n \<and> n \<le> 126 then [c]
     else [CHR 0x5C, CHR ''u'', CHR ''0'', CHR ''0'', hex_digit (n div 16), hex_digit (n mod 16)])"

definition json_str :: "string \<Rightarrow> string" where
  "json_str s = [CHR 0x22] @ concat (map json_char s) @ [CHR 0x22]"

definition newline_indent :: "nat \<Rightarrow> string" where
  "newline_indent level = CHR 0x0A # replicate (2 * level) CHR '' ''"

fun json_dumps :: "nat \<Rightarrow> pyval \<Rightarrow> string" where
  "json_dumps level (PStr s) = json_str s"
| "json_dumps level (PList xs) =
     (if xs = [] then ''[]''
      else ''['' @ newline_indent (Suc level)
           @ join ('','' @ newline_indent (Suc level)) (map (json_dumps (Suc level)) xs)
           @ newline_indent level @ '']'')"
| "json_dumps level (PDict kvs) =
     (if kvs = [] then ''{}''
      else ''{'' @ newline_indent (Suc level)
           @ join ('','' @ newline_indent (Suc level))
               (map (\<lambda>kv. json_str (fst kv) @ '': '' @ json_dumps (Suc level) (snd kv)) kvs)
           @ newline_indent level @ ''}'')"

subsection \<open>The script\<close>

definition emit :: "event list \<Rightarrow> 'a io \<Rightarrow> 'a io" where
  "emit ev r = (ev @ fst r, snd r)"

definition run_command :: "env \<Rightarrow> string list \<Rightarrow> string io" where
  "run_command e cmd =
     (case subprocess_run e cmd of
        Completed out \<Rightarrow> ([Exec cmd], Inr (strip out))
      | NonZeroExit msg \<Rightarrow>
          ([Exec cmd, Stderr (''Error running command '' @ join '' '' cmd @ '': '' @ msg)],
           Inl (SystemExit 1))
      | NotStarted msg \<Rightarrow> ([Exec cmd], Inl (OSError msg)))"

text \<open>The test \<^verbatim>\<open>labels and 'netpol.app' in labels\<close>.\<close>

definition has_netpol_labels :: "strmap option \<Rightarrow> bool" where
  "has_netpol_labels lbls =
     (case lbls of
        None \<Rightarrow> False
      | Some d \<Rightarrow> if d = [] then False else map_of d ''netpol.app'' \<noteq> None)"

definition inspect_cmd :: "string \<Rightarrow> string list" where
  "inspect_cmd net_id = [''docker'', ''network'', ''inspect'', net_id]"

definition ls_cmd :: "string list" where
  "ls_cmd = [''docker'', ''network'', ''ls'', ''--format'', ''{{.ID}}'']"

text \<open>The loop of \<^verbatim>\<open>get_docker_networks\<close> over the lines of the listing.\<close>

fun inspect_loop :: "env \<Rightarrow> string list \<Rightarrow> network list \<Rightarrow> network list io" where
  "inspect_loop e [] networks = ([], Inr networks)"
| "inspect_loop e (net_id # ids) networks =
     (if net_id = [] then inspect_loop e ids networks
      else (case run_command e (inspect_cmd net_id) of
              (ev, Inl x) \<Rightarrow> (ev, Inl x)
            | (ev, Inr inspect_output) \<Rightarrow>
                (let network_data = json_loads0 e inspect_output;
                     lbls = field_get (Labels network_data) []
                 in emit ev (inspect_loop e ids
                      (if has_netpol_labels lbls then networks @ [network_data]
                       else networks)))))"

definition get_docker_networks :: "env \<Rightarrow> network list io" where
  "get_docker_networks e =
     (case run_command e ls_cmd of
        (ev, Inl x) \<Rightarrow> (ev, Inl x)
      | (ev, Inr network_ids) \<Rightarrow>
          if network_ids = [] then (ev, Inr [])
          else emit ev (inspect_loop e (split_nl network_ids) []))"

definition bridge_key :: string where
  "bridge_key = ''com.docker.network.bridge.name''"

definition hep_manifest :: "string \<Rightarrow> string \<Rightarrow> string \<Rightarrow> string \<Rightarrow> string \<Rightarrow> pyval" where
  "hep_manifest bridge app_name app_id role_name node =
     PDict [
       (''apiVersion'', PStr ''projectcalico.org/v3''),
       (''kind'', PStr ''HostEndpoint''),
       (''metadata'', PDict [
          (''name'', PStr bridge),
          (''labels'', PDict [
             (''app'', PStr app_name),
             (''app-id'', PStr app_id),
             (''role'', PStr role_name)])]),
       (''spec'', PDict [
          (''node'', PStr node),
          (''interfaceName'', PStr bridge)])]"

definition generate_hep_manifest :: "network \<Rightarrow> string \<Rightarrow> hep_data option io" where
  "generate_hep_manifest network node =
     (let lbls = field_get (Labels network) [];
          options = field_get (Options network) []
      in case options of
           None \<Rightarrow> ([], Inl AttributeError)
         | Some opts \<Rightarrow>
             (let bridge = dict_get opts bridge_key []
              in if bridge = [] then
                   ([Stderr (''Warning: No bridge name found for network '' @ Name network)],
                    Inr None)
                 else (case lbls of
                         None \<Rightarrow> ([], Inl AttributeError)
                       | Some ls \<Rightarrow>
                           (let app_name = dict_get ls ''netpol.app'' ''unknown'';
                                app_id = dict_get ls ''netpol.app_id'' ''unknown'';
                                role_name = dict_get ls ''netpol.role'' ''unknown''
                            in ([], Inr (Some \<lparr>
                                 manifest = hep_manifest bridge app_name app_id role_name node,
                                 filename = ''hep-'' @ app_name @ ''-'' @ role_name @ ''.yaml'',
                                 network_name = Name network,
                                 bridge_name = bridge,
                                 labels = ls \<rparr>))))))"

definition helper_cmd :: "bool \<Rightarrow> string list" where
  "helper_cmd dry_run =
     [''/usr/local/bin/apply_calico_manifests.sh''] @ (if dry_run then [''--dry-run''] else [])"

text \<open>
  \<^verbatim>\<open>apply_hep_manifest\<close>; \<open>k\<close> is the number of helper calls made before this one. Both
  \<^verbatim>\<open>except\<close> clauses return \<^verbatim>\<open>False\<close>, so the function never raises.
\<close>

definition apply_hep_manifest :: "env \<Rightarrow> nat \<Rightarrow> pyval \<Rightarrow> bool \<Rightarrow> event list \<times> bool" where
  "apply_hep_manifest e k m dry_run =
     (let cmd = helper_cmd dry_run
      in case helper_run e k cmd m of
           HelperOk \<Rightarrow> ([CallHelper cmd m], True)
         | HelperFailed err \<Rightarrow>
             ([CallHelper cmd m, Stderr (''Error applying manifest: '' @ err)], False)
         | HelperException msg \<Rightarrow>
             ([CallHelper cmd m, Stderr (''Unexpected error applying manifest: '' @ msg)], False))"

text \<open>\<^verbatim>\<open>d[key]\<close> on a document.\<close>

fun getitem :: "pyval \<Rightarrow> string \<Rightarrow> exn + pyval" where
  "getitem (PDict kvs) k = (case map_of kvs k of None \<Rightarrow> Inl (KeyError k) | Some v \<Rightarrow> Inr v)"
| "getitem (PStr s) k = Inl TypeError"
| "getitem (PList xs) k = Inl TypeError"

text \<open>
  \<^verbatim>\<open>m['metadata']['name']\<close>, as the text an f-string prints for it. The value is a
  \<^verbatim>\<open>str\<close> in every manifest the script builds; the model gives \<open>TypeError\<close> for a
  document where it is not.
\<close>

definition manifest_name :: "pyval \<Rightarrow> exn + string" where
  "manifest_name m =
     (case getitem m ''metadata'' of
        Inl x \<Rightarrow> Inl x
      | Inr md \<Rightarrow>
          (case getitem md ''name'' of
             Inl x \<Rightarrow> Inl x
           | Inr (PStr s) \<Rightarrow> Inr s
           | Inr (PList xs) \<Rightarrow> Inl TypeError
           | Inr (PDict kvs) \<Rightarrow> Inl TypeError))"

text \<open>The part of the loop body of \<^verbatim>\<open>main\<close> under \<^verbatim>\<open>if args.output_dir\<close>.\<close>

definition write_events :: "args \<Rightarrow> hep_data \<Rightarrow> event list" where
  "write_events a h =
     (case args_output_dir a of
        None \<Rightarrow> []
      | Some dir \<Rightarrow>
          if dir = [] then []
          else (let output_file = os_path_join dir (filename h)
                in [Makedirs dir, WriteYaml output_file (manifest h),
                    Stdout (''Written: '' @ output_file)]))"

text \<open>
  The part of the loop body under \<^verbatim>\<open>if args.apply\<close>, on the two counters. The number
  of helper calls made so far is the sum of the counters.
\<close>

definition apply_step :: "env \<Rightarrow> args \<Rightarrow> network \<Rightarrow> hep_data \<Rightarrow> nat \<times> nat \<Rightarrow> (nat \<times> nat) io" where
  "apply_step e a network h cnt =
     (case cnt of (applied_count, failed_count) \<Rightarrow>
        (let ev0 = [Stdout (''Applying HostEndpoint for network '' @ Name network @ '' -> ''
                            @ bridge_name h)];
             r = apply_hep_manifest e (applied_count + failed_count) (manifest h) (args_dry_run a)
         in case manifest_name (manifest h) of
              Inl x \<Rightarrow> (ev0 @ fst r, Inl x)
            | Inr nm \<Rightarrow>
                if snd r then
                  (ev0 @ fst r @
                     [if \<not> args_dry_run a then StdoutMark Check ('' Applied HostEndpoint '' @ nm)
                      else StdoutMark Check ('' Dry-run successful for HostEndpoint '' @ nm)],
                   Inr (applied_count + 1, failed_count))
                else
                  (ev0 @ fst r @ [StdoutMark Cross ('' Failed to apply HostEndpoint '' @ nm)],
                   Inr (applied_count, failed_count + 1))))"

text \<open>The \<^verbatim>\<open>for network in networks\<close> loop of \<^verbatim>\<open>main\<close>, on \<open>(heps, (applied_count, failed_count))\<close>.\<close>

fun main_loop :: "env \<Rightarrow> args \<Rightarrow> network list \<Rightarrow> hep_data list \<times> nat \<times> nat
                  \<Rightarrow> (hep_data list \<times> nat \<times> nat) io" where
  "main_loop e a [] st = ([], Inr st)"
| "main_loop e a (network # rest) st =
     (case generate_hep_manifest network (args_node_name a) of
        (ev, Inl x) \<Rightarrow> (ev, Inl x)
      | (ev, Inr None) \<Rightarrow> emit ev (main_loop e a rest st)
      | (ev, Inr (Some h)) \<Rightarrow>
          (let heps = fst st @ [h];
               ev_w = write_events a h
           in if args_apply a then
                (case apply_step e a network h (snd st) of
                   (ev_a, Inl x) \<Rightarrow> (ev @ ev_w @ ev_a, Inl x)
                 | (ev_a, Inr cnt) \<Rightarrow> emit (ev @ ev_w @ ev_a) (main_loop e a rest (heps, cnt)))
              else emit (ev @ ev_w) (main_loop e a rest (heps, snd st))))"

text \<open>An entry of \<^verbatim>\<open>heps\<close> as the document \<^verbatim>\<open>json.dumps\<close> receives.\<close>

definition hep_doc :: "hep_data \<Rightarrow> pyval" where
  "hep_doc h =
     PDict [
       (''manifest'', manifest h),
       (''filename'', PStr (filename h)),
       (''network_name'', PStr (network_name h)),
       (''bridge_name'', PStr (bridge_name h)),
       (''labels'', PDict (map (\<lambda>kv. (fst kv, PStr (snd kv))) (labels h)))]"

definition summary_line :: "nat \<Rightarrow> nat \<Rightarrow> string" where
  "summary_line applied_count failed_count =
     CHR 0x0A # ''Summary: '' @ str_nat applied_count @ '' applied, ''
       @ str_nat failed_count @ '' failed''"

definition main :: "env \<Rightarrow> args \<Rightarrow> unit io" where
  "main e a =
     (case get_docker_networks e of
        (ev, Inl x) \<Rightarrow> (ev, Inl x)
      | (ev, Inr networks) \<Rightarrow>
          if networks = [] then
            (if args_apply a then (ev @ [Stdout ''No networks with netpol labels found''], Inr ())
             else (ev @ [Stdout ''[]''], Inr ()))
          else
            (case main_loop e a networks ([], 0, 0) of
               (ev', Inl x) \<Rightarrow> (ev @ ev', Inl x)
             | (ev', Inr (heps, applied_count, failed_count)) \<Rightarrow>
                 if args_apply a then
                   (ev @ ev' @ [Stdout (summary_line applied_count failed_count)],
                    if failed_count > 0 then Inl (SystemExit 1) else Inr ())
                 else
                   (ev @ ev' @ [Stdout (json_dumps 0 (PList (map hep_doc heps)))], Inr ())))"

text \<open>
  The process as the caller sees it: the events and the exit status. An uncaught
  exception other than \<^verbatim>\<open>SystemExit\<close> ends the interpreter with a traceback on the error
  stream and status 1.
\<close>

definition script :: "env \<Rightarrow> args \<Rightarrow> event list \<times> nat" where
  "script e a =
     (case main e a of
        (ev, Inr u) \<Rightarrow> (ev, 0)
      | (ev, Inl (SystemExit c)) \<Rightarrow> (ev, c)
      | (ev, Inl x) \<Rightarrow> (ev @ [Traceback x], 1))"

subsection \<open>Notions used to state the properties\<close>

text \<open>\<^verbatim>\<open>m['metadata']['labels'][key]\<close>\<close>

definition manifest_label :: "pyval \<Rightarrow> string \<Rightarrow> exn + pyval" where
  "manifest_label m k =
     (case getitem m ''metadata'' of
        Inl x \<Rightarrow> Inl x
      | Inr md \<Rightarrow>
          (case getitem md ''labels'' of
             Inl x \<Rightarrow> Inl x
           | Inr ls \<Rightarrow> getitem ls k))"

text \<open>The filter of \<^verbatim>\<open>get_docker_networks\<close> on a descriptor.\<close>

definition qualifies :: "network \<Rightarrow> bool" where
  "qualifies n = has_netpol_labels (field_get (Labels n) [])"

text \<open>A command that does not run to status 0.\<close>

definition fails :: "env \<Rightarrow> string list \<Rightarrow> bool" where
  "fails e cmd = (case subprocess_run e cmd of Completed out \<Rightarrow> False
                  | NonZeroExit msg \<Rightarrow> True | NotStarted msg \<Rightarrow> True)"

text \<open>The identifiers the listing command reports, one per non-empty line.\<close>

definition network_ids :: "env \<Rightarrow> string list" where
  "network_ids e = (case subprocess_run e ls_cmd of
                      Completed out \<Rightarrow> filter (\<lambda>i. i \<noteq> []) (split_nl (strip out))
                    | NonZeroExit msg \<Rightarrow> [] | NotStarted msg \<Rightarrow> [])"

text \<open>The descriptor a successful inspection of an identifier yields.\<close>

definition inspected :: "env \<Rightarrow> string \<Rightarrow> network option" where
  "inspected e i = (case subprocess_run e (inspect_cmd i) of
                      Completed out \<Rightarrow> Some (json_loads0 e (strip out))
                    | NonZeroExit msg \<Rightarrow> None | NotStarted msg \<Rightarrow> None)"

text \<open>The entry derived for one network, if any.\<close>

definition derive :: "string \<Rightarrow> network \<Rightarrow> hep_data option" where
  "derive node n = (case snd (generate_hep_manifest n node) of
                      Inl x \<Rightarrow> None | Inr None \<Rightarrow> None | Inr (Some h) \<Rightarrow> Some h)"

definition warning :: "network \<Rightarrow> event" where
  "warning n = Stderr (''Warning: No bridge name found for network '' @ Name n)"

text \<open>The label mapping \<^verbatim>\<open>generate_hep_manifest\<close> reads, for a descriptor whose \<open>Labels\<close> is not null.\<close>

definition raw_labels :: "network \<Rightarrow> strmap" where
  "raw_labels n = (case Labels n of Absent \<Rightarrow> [] | Null \<Rightarrow> [] | Dict d \<Rightarrow> d)"

text \<open>
  The descriptor's driver options hold no bridge name: the \<open>Options\<close> member is missing,
  is JSON null, or is a mapping without the key.
\<close>

definition lacks_bridge :: "network \<Rightarrow> bool" where
  "lacks_bridge n = (case Options n of Absent \<Rightarrow> True | Null \<Rightarrow> True
                     | Dict d \<Rightarrow> map_of d bridge_key = None)"

fun is_stderr :: "event \<Rightarrow> bool" where
  "is_stderr (Stderr s) = True"
| "is_stderr (Traceback x) = True"
| "is_stderr (Stdout s) = False"
| "is_stderr (StdoutMark m s) = False"
| "is_stderr (Exec c) = False"
| "is_stderr (Makedirs d) = False"
| "is_stderr (WriteYaml f m) = False"
| "is_stderr (CallHelper c m) = False"

fun is_stdout :: "event \<Rightarrow> bool" where
  "is_stdout (Stdout s) = True"
| "is_stdout (StdoutMark m s) = True"
| "is_stdout (Stderr s) = False"
| "is_stdout (Traceback x) = False"
| "is_stdout (Exec c) = False"
| "is_stdout (Makedirs d) = False"
| "is_stdout (WriteYaml f m) = False"
| "is_stdout (CallHelper c m) = False"

fun is_exec :: "event \<Rightarrow> bool" where
  "is_exec (Exec c) = True"
| "is_exec (Stderr s) = False"
| "is_exec (Traceback x) = False"
| "is_exec (Stdout s) = False"
| "is_exec (StdoutMark m s) = False"
| "is_exec (Makedirs d) = False"
| "is_exec (WriteYaml f m) = False"
| "is_exec (CallHelper c m) = False"

fun is_call :: "event \<Rightarrow> bool" where
  "is_call (CallHelper c m) = True"
| "is_call (Exec c) = False"
| "is_call (Stderr s) = False"
| "is_call (Traceback x) = False"
| "is_call (Stdout s) = False"
| "is_call (StdoutMark m s) = False"
| "is_call (Makedirs d) = False"
| "is_call (WriteYaml f m) = False"

text \<open>Whether the \<open>k\<close>-th helper call, on document \<open>m\<close>, succeeds.\<close>

definition helper_ok :: "env \<Rightarrow> args \<Rightarrow> nat \<Rightarrow> pyval \<Rightarrow> bool" where
  "helper_ok e a k m = (helper_run e k (helper_cmd (args_dry_run a)) m = HelperOk)"

text \<open>The results of the helper calls for a batch of documents, the first call being number \<open>k\<close>.\<close>

fun outcomes :: "env \<Rightarrow> args \<Rightarrow> nat \<Rightarrow> pyval list \<Rightarrow> bool list" where
  "outcomes e a k [] = []"
| "outcomes e a k (m # ms) = helper_ok e a k m # outcomes e a (Suc k) ms"

text \<open>The entries of a run of discovery and derivation, or the exception that ended it.\<close>

definition pipeline_heps :: "env \<Rightarrow> args \<Rightarrow> exn + hep_data list" where
  "pipeline_heps e a =
     (case get_docker_networks e of
        (ev, Inl x) \<Rightarrow> Inl x
      | (ev, Inr networks) \<Rightarrow>
          (case snd (main_loop e a networks ([], 0, 0)) of
             Inl x \<Rightarrow> Inl x
           | Inr st \<Rightarrow> Inr (fst st)))"

subsection \<open>Example runs\<close>

definition net_web :: network where
  "net_web = \<lparr>Name = ''web_net'', Labels = Dict [(''netpol.app'', ''web'')],
              Options = Dict [(''com.docker.network.bridge.name'', ''br-aaa'')]\<rparr>"

definition net_plain :: network where
  "net_plain = \<lparr>Name = ''plain_net'', Labels = Dict [(''com.example'', ''x'')],
                Options = Dict [(''com.docker.network.bridge.name'', ''br-bbb'')]\<rparr>"

definition net_nobridge :: network where
  "net_nobridge = \<lparr>Name = ''db_net'', Labels = Dict [(''netpol.app'', []), (''netpol.role'', ''db'')],
                   Options = Absent\<rparr>"

definition net_nolabels :: network where
  "net_nolabels = \<lparr>Name = ''bare_net'', Labels = Null,
                   Options = Dict [(''com.docker.network.bridge.name'', ''br-ccc'')]\<rparr>"

definition net_emptybridge :: network where
  "net_emptybridge = \<lparr>Name = ''db_net'', Labels = Dict [(''netpol.app'', ''db'')],
                      Options = Dict [(''com.docker.network.bridge.name'', [])]\<rparr>"

text \<open>Three networks; the policy engine rejects every manifest.\<close>

definition example_env :: env where
  "example_env = \<lparr>
     subprocess_run = (\<lambda>cmd.
        if cmd = ls_cmd then Completed (''aaa'' @ [CHR 0x0A] @ ''bbb'' @ [CHR 0x0A] @ ''ccc'' @ [CHR 0x0A])
        else if cmd = inspect_cmd ''aaa'' then Completed ''A''
        else if cmd = inspect_cmd ''bbb'' then Completed ''B''
        else if cmd = inspect_cmd ''ccc'' then Completed ''C''
        else NonZeroExit ''no such network''),
     json_loads0 = (\<lambda>s. if s = ''A'' then net_web else if s = ''B'' then net_plain else net_nobridge),
     helper_run = (\<lambda>k cmd m. HelperFailed ''rejected'') \<rparr>"

text \<open>The same runtime; the policy engine accepts every manifest.\<close>

definition accepting_env :: env where
  "accepting_env = example_env \<lparr> helper_run := (\<lambda>k cmd m. HelperOk) \<rparr>"

text \<open>A runtime without any network.\<close>

definition empty_env :: env where
  "empty_env = \<lparr>
     subprocess_run = (\<lambda>cmd. Completed []),
     json_loads0 = (\<lambda>s. net_plain),
     helper_run = (\<lambda>k cmd m. HelperOk) \<rparr>"

text \<open>A runtime whose inspection of the second network fails.\<close>

definition failing_env :: env where
  "failing_env = \<lparr>
     subprocess_run = (\<lambda>cmd.
        if cmd = ls_cmd then Completed (''aaa'' @ [CHR 0x0A] @ ''bbb'')
        else if cmd = inspect_cmd ''aaa'' then Completed ''A''
        else NonZeroExit ''exit status 1''),
     json_loads0 = (\<lambda>s. net_web),
     helper_run = (\<lambda>k cmd m. HelperOk) \<rparr>"

definition apply_args :: args where
  "apply_args = \<lparr>args_node_name = ''node1'', args_apply = True, args_dry_run = False,
                 args_output_dir = None\<rparr>"

definition list_args :: args where
  "list_args = \<lparr>args_node_name = ''node1'', args_apply = False, args_dry_run = False,
                args_output_dir = None\<rparr>"

definition files_args :: args where
  "files_args = \<lparr>args_node_name = ''node1'', args_apply = False, args_dry_run = True,
                 args_output_dir = Some ''/tmp/heps''\<rparr>"

text \<open>A runtime whose only network qualifies but has no bridge name.\<close>

definition skip_env :: env where
  "skip_env = \<lparr>
     subprocess_run = (\<lambda>cmd. if cmd = ls_cmd then Completed ''ccc'' else Completed ''C''),
     json_loads0 = (\<lambda>s. net_nobridge),
     helper_run = (\<lambda>k cmd m. HelperOk) \<rparr>"

text \<open>The entry derived for \<open>net_web\<close> on node \<open>node1\<close>.\<close>

definition hep_web :: hep_data where
  "hep_web = \<lparr>
     manifest = PDict [
       (''apiVersion'', PStr ''projectcalico.org/v3''),
       (''kind'', PStr ''HostEndpoint''),
       (''metadata'', PDict [
          (''name'', PStr ''br-aaa''),
          (''labels'', PDict [
             (''app'', PStr ''web''),
             (''app-id'', PStr ''unknown''),
             (''role'', PStr ''unknown'')])]),
       (''spec'', PDict [
          (''node'', PStr ''node1''),
          (''interfaceName'', PStr ''br-aaa'')])],
     filename = ''hep-web-unknown.yaml'',
     network_name = ''web_net'',
     bridge_name = ''br-aaa'',
     labels = [(''netpol.app'', ''web'')] \<rparr>"

text \<open>A qualifying network whose \<open>Options\<close> member is JSON null, and a runtime with only this network.\<close>

definition net_nulloptions :: network where
  "net_nulloptions = \<lparr>Name = ''db_net'', Labels = Dict [(''netpol.app'', ''db'')],
                      Options = Null\<rparr>"

definition nullopt_env :: env where
  "nullopt_env = \<lparr>
     subprocess_run = (\<lambda>cmd. if cmd = ls_cmd then Completed ''ddd'' else Completed ''D''),
     json_loads0 = (\<lambda>s. net_nulloptions),
     helper_run = (\<lambda>k cmd m. HelperOk) \<rparr>"

section \<open>Properties\<close>

subsection \<open>Auxiliary facts\<close>


lemma emit_simps: "emit ev (ev', r) = (ev @ ev', r)" "fst (emit ev x) = ev @ fst x" "snd (emit ev x) = snd x"
  by (simp_all add: emit_def)

lemma qualifies_iff: "qualifies n \<longleftrightarrow> (\<exists>d. Labels n = Dict d \<and> map_of d ''netpol.app'' \<noteq> None)"
  by (cases "Labels n") (auto simp: qualifies_def has_netpol_labels_def field_get_def)

lemma run_command_cases:
  "run_command e cmd = (ev, Inr out) \<Longrightarrow> ev = [Exec cmd] \<and> \<not> fails e cmd \<and> (\<exists>raw. subprocess_run e cmd = Completed raw \<and> out = strip raw)"
  by (auto simp: run_command_def fails_def split: proc.splits)

lemma run_command_fail:
  "fails e cmd \<Longrightarrow> \<exists>ev x. run_command e cmd = (ev, Inl x) \<and> (x = SystemExit 1 \<or> (\<exists>m. x = OSError m)) 
     \<and> (ev = [Exec cmd] \<and> (\<exists>m. x = OSError m) \<or> (\<exists>s. ev = [Exec cmd, Stderr s] \<and> x = SystemExit 1))"
  by (auto simp: run_command_def fails_def split: proc.splits)

lemma run_command_ok:
  "\<not> fails e cmd \<Longrightarrow> \<exists>raw. subprocess_run e cmd = Completed raw \<and> run_command e cmd = ([Exec cmd], Inr (strip raw))"
  by (auto simp: run_command_def fails_def split: proc.splits)

lemma inspect_loop_Inr:
  "inspect_loop e ids acc = (ev, Inr nets) \<Longrightarrow>
     nets = acc @ filter qualifies (List.map_filter (inspected e) (filter (\<lambda>i. i \<noteq> []) ids))
     \<and> ev = map (\<lambda>i. Exec (inspect_cmd i)) (filter (\<lambda>i. i \<noteq> []) ids)
     \<and> (\<forall>i\<in>set ids. i \<noteq> [] \<longrightarrow> \<not> fails e (inspect_cmd i))"
proof (induction ids arbitrary: acc ev)
  case Nil
  then show ?case by simp
next
  case (Cons i ids)
  show ?case
  proof (cases "i = []")
    case True
    with Cons show ?thesis by simp
  next
    case False
    from Cons.prems False obtain ev1 out where rc: "run_command e (inspect_cmd i) = (ev1, Inr out)"
      by (cases "run_command e (inspect_cmd i)") (auto split: sum.splits)
    from run_command_cases[OF rc] obtain raw where
      ev1: "ev1 = [Exec (inspect_cmd i)]" and nf: "\<not> fails e (inspect_cmd i)"
      and raw: "subprocess_run e (inspect_cmd i) = Completed raw" "out = strip raw" by blast
    have insp: "inspected e i = Some (json_loads0 e out)"
      by (simp add: inspected_def raw)
    let ?n = "json_loads0 e out"
    let ?acc = "if qualifies ?n then acc @ [?n] else acc"
    from Cons.prems False rc
    have "emit ev1 (inspect_loop e ids ?acc) = (ev, Inr nets)"
      by (simp add: Let_def qualifies_def)
    then obtain ev2 where l: "inspect_loop e ids ?acc = (ev2, Inr nets)" and ev: "ev = ev1 @ ev2"
      by (cases "inspect_loop e ids ?acc") (auto simp: emit_def)
    from Cons.IH[OF l] False insp nf ev ev1 show ?thesis
      by auto
  qed
qed


lemma get_docker_networks_Inr:
  assumes "get_docker_networks e = (ev, Inr nets)"
  shows "nets = filter qualifies (List.map_filter (inspected e) (network_ids e))"
    and "ev = Exec ls_cmd # map (\<lambda>i. Exec (inspect_cmd i)) (network_ids e)"
    and "\<not> fails e ls_cmd"
    and "\<forall>i\<in>set (network_ids e). \<not> fails e (inspect_cmd i)"
proof -
  from assms obtain ev1 out where rc: "run_command e ls_cmd = (ev1, Inr out)"
    by (cases "run_command e ls_cmd") (auto simp: get_docker_networks_def split: sum.splits)
  from run_command_cases[OF rc] obtain raw where
    ev1: "ev1 = [Exec ls_cmd]" and nf: "\<not> fails e ls_cmd"
    and raw: "subprocess_run e ls_cmd = Completed raw" "out = strip raw" by blast
  have ids: "network_ids e = filter (\<lambda>i. i \<noteq> []) (split_nl out)"
    by (simp add: network_ids_def raw)
  show "\<not> fails e ls_cmd" by (rule nf)
  show "nets = filter qualifies (List.map_filter (inspected e) (network_ids e))"
    and "ev = Exec ls_cmd # map (\<lambda>i. Exec (inspect_cmd i)) (network_ids e)"
    and "\<forall>i\<in>set (network_ids e). \<not> fails e (inspect_cmd i)"
  proof (atomize (full), cases "out = []")
    case True
    with assms rc ev1 ids show "nets = filter qualifies (List.map_filter (inspected e) (network_ids e)) \<and>
      ev = Exec ls_cmd # map (\<lambda>i. Exec (inspect_cmd i)) (network_ids e) \<and>
      (\<forall>i\<in>set (network_ids e). \<not> fails e (inspect_cmd i))"
      by (simp add: get_docker_networks_def)
  next
    case False
    with assms rc have "emit ev1 (inspect_loop e (split_nl out) []) = (ev, Inr nets)"
      by (simp add: get_docker_networks_def)
    then obtain ev2 where l: "inspect_loop e (split_nl out) [] = (ev2, Inr nets)" and ev: "ev = ev1 @ ev2"
      by (cases "inspect_loop e (split_nl out) []") (auto simp: emit_def)
    from inspect_loop_Inr[OF l] ev ev1 ids
    show "nets = filter qualifies (List.map_filter (inspected e) (network_ids e)) \<and>
      ev = Exec ls_cmd # map (\<lambda>i. Exec (inspect_cmd i)) (network_ids e) \<and>
      (\<forall>i\<in>set (network_ids e). \<not> fails e (inspect_cmd i))"
      by simp
  qed
qed

lemma generate_skip:
  "lacks_bridge n \<Longrightarrow> Options n \<noteq> Null \<Longrightarrow>
     generate_hep_manifest n node = ([warning n], Inr None)"
  by (cases "Options n") (auto simp: lacks_bridge_def generate_hep_manifest_def field_get_def dict_get_def warning_def)

lemma generate_empty:
  "Options n = Dict d \<Longrightarrow> map_of d bridge_key = Some [] \<Longrightarrow> generate_hep_manifest n node = ([warning n], Inr None)"
  by (auto simp: generate_hep_manifest_def field_get_def dict_get_def warning_def)

lemma generate_some:
  assumes "Options n = Dict d" "map_of d bridge_key = Some b" "b \<noteq> []" "Labels n \<noteq> Null"
  shows "generate_hep_manifest n node = ([], Inr (Some \<lparr>
           manifest = hep_manifest b (dict_get (raw_labels n) ''netpol.app'' ''unknown'')
                        (dict_get (raw_labels n) ''netpol.app_id'' ''unknown'')
                        (dict_get (raw_labels n) ''netpol.role'' ''unknown'') node,
           filename = ''hep-'' @ dict_get (raw_labels n) ''netpol.app'' ''unknown'' @ ''-''
                        @ dict_get (raw_labels n) ''netpol.role'' ''unknown'' @ ''.yaml'',
           network_name = Name n, bridge_name = b, labels = raw_labels n \<rparr>))"
  using assms by (cases "Labels n") (simp_all add: generate_hep_manifest_def field_get_def dict_get_def raw_labels_def Let_def)

lemma generate_Some_D:
  assumes "generate_hep_manifest n node = (ev, Inr (Some h))"
  shows "\<exists>d b. Options n = Dict d \<and> map_of d bridge_key = Some b \<and> b \<noteq> [] \<and> Labels n \<noteq> Null \<and> ev = []"
  using assms
  by (cases "Options n"; cases "Labels n")
     (auto simp: generate_hep_manifest_def field_get_def dict_get_def Let_def split: if_splits option.splits)

lemma manifest_name_hep: "manifest_name (hep_manifest b x y z node) = Inr b"
  by (simp add: manifest_name_def hep_manifest_def)

lemma generate_wf:
  assumes "Options n \<noteq> Null" "Labels n \<noteq> Null"
  shows "(generate_hep_manifest n node = ([warning n], Inr None) \<and> derive node n = None) \<or>
         (\<exists>h. generate_hep_manifest n node = ([], Inr (Some h)) \<and> derive node n = Some h
              \<and> manifest_name (manifest h) = Inr (bridge_name h))"
proof (cases "Options n")
  case Absent
  then have "lacks_bridge n" by (simp add: lacks_bridge_def)
  from generate_skip[OF this assms(1)] show ?thesis by (simp add: derive_def)
next
  case Null
  with assms show ?thesis by simp
next
  case (Dict d)
  show ?thesis
  proof (cases "map_of d bridge_key")
    case None
    with Dict have "lacks_bridge n" by (simp add: lacks_bridge_def)
    from generate_skip[OF this assms(1)] show ?thesis by (simp add: derive_def)
  next
    case (Some b)
    show ?thesis
    proof (cases "b = []")
      case True
      with generate_empty[OF Dict] Some show ?thesis by (simp add: derive_def)
    next
      case False
      from generate_some[OF Dict Some False assms(2)] show ?thesis
        by (simp add: derive_def manifest_name_hep)
    qed
  qed
qed


lemma main_loop_skip:
  "generate_hep_manifest n (args_node_name a) = (w, Inr None) \<Longrightarrow>
     main_loop e a (n # rest) st = emit w (main_loop e a rest st)"
  by simp

lemma apply_step_ok:
  assumes "manifest_name (manifest h) = Inr nm"
  shows "\<exists>ev. apply_step e a n h (ac, fc) =
           (ev, Inr (if helper_ok e a (ac + fc) (manifest h) then (Suc ac, fc) else (ac, Suc fc)))
         \<and> filter is_call ev = [CallHelper (helper_cmd (args_dry_run a)) (manifest h)]"
  using assms
  by (cases "helper_run e (ac + fc) (helper_cmd (args_dry_run a)) (manifest h)")
     (simp_all add: apply_step_def apply_hep_manifest_def helper_ok_def Let_def)

lemma write_events_no_call: "filter is_call (write_events a h) = []"
  by (simp add: write_events_def Let_def split: option.splits)

lemma main_loop_apply:
  assumes "args_apply a" and "\<forall>n\<in>set nets. Options n \<noteq> Null \<and> Labels n \<noteq> Null"
  shows "\<exists>ev. main_loop e a nets (hs0, ac, fc) =
           (ev, Inr (hs0 @ List.map_filter (derive (args_node_name a)) nets,
                     ac + length (filter (\<lambda>b. b) (outcomes e a (ac + fc)
                            (map manifest (List.map_filter (derive (args_node_name a)) nets)))),
                     fc + length (filter (\<lambda>b. \<not> b) (outcomes e a (ac + fc)
                            (map manifest (List.map_filter (derive (args_node_name a)) nets))))))
         \<and> filter is_call ev = map (\<lambda>h. CallHelper (helper_cmd (args_dry_run a)) (manifest h))
                                    (List.map_filter (derive (args_node_name a)) nets)"
  using assms(2)
proof (induction nets arbitrary: hs0 ac fc)
  case Nil
  show ?case by simp
next
  case (Cons n rest)
  let ?node = "args_node_name a"
  from Cons.prems have wf: "Options n \<noteq> Null" "Labels n \<noteq> Null"
    and wfr: "\<forall>n\<in>set rest. Options n \<noteq> Null \<and> Labels n \<noteq> Null" by simp_all
  from generate_wf[OF wf, of ?node] show ?case
  proof (elim disjE conjE exE)
    assume g: "generate_hep_manifest n ?node = ([warning n], Inr None)" and d: "derive ?node n = None"
    from Cons.IH[OF wfr, of hs0 ac fc] obtain ev where
      "main_loop e a rest (hs0, ac, fc) =
           (ev, Inr (hs0 @ List.map_filter (derive ?node) rest,
                     ac + length (filter (\<lambda>b. b) (outcomes e a (ac + fc) (map manifest (List.map_filter (derive ?node) rest)))),
                     fc + length (filter (\<lambda>b. \<not> b) (outcomes e a (ac + fc) (map manifest (List.map_filter (derive ?node) rest))))))"
      and "filter is_call ev = map (\<lambda>h. CallHelper (helper_cmd (args_dry_run a)) (manifest h))
                                    (List.map_filter (derive ?node) rest)" by blast
    with d show ?thesis
      unfolding main_loop_skip[OF g] by (simp add: emit_def warning_def)
  next
    fix h
    assume g: "generate_hep_manifest n ?node = ([], Inr (Some h))" and d: "derive ?node n = Some h"
      and nm: "manifest_name (manifest h) = Inr (bridge_name h)"
    let ?ok = "helper_ok e a (ac + fc) (manifest h)"
    let ?ac = "if ?ok then Suc ac else ac"
    let ?fc = "if ?ok then fc else Suc fc"
    from apply_step_ok[OF nm, of e a n ac fc] obtain eva where
      st: "apply_step e a n h (ac, fc) = (eva, Inr (?ac, ?fc))"
      and ca: "filter is_call eva = [CallHelper (helper_cmd (args_dry_run a)) (manifest h)]"
      by (cases ?ok) auto
    have k: "?ac + ?fc = Suc (ac + fc)" by simp
    from Cons.IH[OF wfr, of "hs0 @ [h]" ?ac ?fc] obtain ev where
      l: "main_loop e a rest (hs0 @ [h], ?ac, ?fc) =
           (ev, Inr ((hs0 @ [h]) @ List.map_filter (derive ?node) rest,
                     ?ac + length (filter (\<lambda>b. b) (outcomes e a (?ac + ?fc) (map manifest (List.map_filter (derive ?node) rest)))),
                     ?fc + length (filter (\<lambda>b. \<not> b) (outcomes e a (?ac + ?fc) (map manifest (List.map_filter (derive ?node) rest))))))"
      and c: "filter is_call ev = map (\<lambda>h. CallHelper (helper_cmd (args_dry_run a)) (manifest h))
                                    (List.map_filter (derive ?node) rest)" by blast
    have step: "main_loop e a (n # rest) (hs0, ac, fc) =
                  emit (write_events a h @ eva) (main_loop e a rest (hs0 @ [h], ?ac, ?fc))"
      using g st assms(1) by (simp add: Let_def)
    show ?thesis
      unfolding step l k using d c ca by (simp add: emit_def write_events_no_call)
  qed
qed


lemma apply_step_cases:
  "manifest_name (manifest h) = Inr nm \<Longrightarrow> \<exists>ev c. apply_step e a n h cnt = (ev, Inr c)"
  using apply_step_ok[of h nm e a n "fst cnt" "snd cnt"] by auto

lemma main_loop_Cons_D:
  assumes "main_loop e a (n # rest) (hs0, c) = (ev, Inr st)"
  shows "(\<exists>w ev'. generate_hep_manifest n (args_node_name a) = (w, Inr None)
            \<and> main_loop e a rest (hs0, c) = (ev', Inr st) \<and> ev = w @ ev') \<or>
         (\<exists>h c1 ev1 ev'. generate_hep_manifest n (args_node_name a) = ([], Inr (Some h))
            \<and> main_loop e a rest (hs0 @ [h], c1) = (ev', Inr st) \<and> ev = ev1 @ ev')"
proof (cases "generate_hep_manifest n (args_node_name a)")
  case (Pair w r)
  show ?thesis
  proof (cases r)
    case (Inl x)
    with Pair assms show ?thesis by simp
  next
    case (Inr o1)
    show ?thesis
    proof (cases o1)
      case None
      with Pair Inr assms show ?thesis
        by (cases "main_loop e a rest (hs0, c)") (simp add: emit_def)
    next
      case (Some h)
      with Pair Inr have g: "generate_hep_manifest n (args_node_name a) = (w, Inr (Some h))" by simp
      from generate_Some_D[OF g] have w: "w = []" by blast
      show ?thesis
      proof (cases "args_apply a")
        case True
        with g assms w obtain eva c1 where "apply_step e a n h c = (eva, Inr c1)"
          and "emit (write_events a h @ eva) (main_loop e a rest (hs0 @ [h], c1)) = (ev, Inr st)"
          by (cases "apply_step e a n h c") (auto simp: Let_def split: sum.splits)
        then obtain ev' where "main_loop e a rest (hs0 @ [h], c1) = (ev', Inr st)"
          and "ev = (write_events a h @ eva) @ ev'"
          by (cases "main_loop e a rest (hs0 @ [h], c1)") (auto simp: emit_def)
        with g w show ?thesis by blast
      next
        case False
        with g assms w have "emit (write_events a h) (main_loop e a rest (hs0 @ [h], c)) = (ev, Inr st)"
          by (simp add: Let_def)
        then obtain ev' where "main_loop e a rest (hs0 @ [h], c) = (ev', Inr st)"
          and "ev = write_events a h @ ev'"
          by (cases "main_loop e a rest (hs0 @ [h], c)") (auto simp: emit_def)
        with g w show ?thesis by blast
      qed
    qed
  qed
qed

lemma main_loop_Inr:
  "main_loop e a nets (hs0, c) = (ev, Inr (hs, c')) \<Longrightarrow>
     hs = hs0 @ List.map_filter (derive (args_node_name a)) nets"
proof (induction nets arbitrary: hs0 c ev)
  case Nil
  then show ?case by simp
next
  case (Cons n rest)
  from main_loop_Cons_D[OF Cons.prems] show ?case
  proof (elim disjE exE conjE)
    fix w ev'
    assume "generate_hep_manifest n (args_node_name a) = (w, Inr None)"
      and "main_loop e a rest (hs0, c) = (ev', Inr (hs, c'))"
    with Cons.IH[of hs0 c ev'] show ?thesis by (simp add: derive_def)
  next
    fix h c1 ev1 ev'
    assume "generate_hep_manifest n (args_node_name a) = ([], Inr (Some h))"
      and "main_loop e a rest (hs0 @ [h], c1) = (ev', Inr (hs, c'))"
    with Cons.IH[of "hs0 @ [h]" c1 ev'] show ?thesis by (simp add: derive_def)
  qed
qed

lemma main_loop_warning:
  "main_loop e a nets (hs0, c) = (ev, Inr st) \<Longrightarrow> n \<in> set nets \<Longrightarrow> lacks_bridge n \<Longrightarrow>
     Options n \<noteq> Null \<Longrightarrow> warning n \<in> set ev"
proof (induction nets arbitrary: hs0 c ev)
  case Nil
  then show ?case by simp
next
  case (Cons m rest)
  from main_loop_Cons_D[OF Cons.prems(1)] show ?case
  proof (elim disjE exE conjE)
    fix w ev'
    assume g: "generate_hep_manifest m (args_node_name a) = (w, Inr None)"
      and l: "main_loop e a rest (hs0, c) = (ev', Inr st)" and ev: "ev = w @ ev'"
    show ?thesis
    proof (cases "n = m")
      case True
      with g generate_skip[OF Cons.prems(3,4), of "args_node_name a"] ev show ?thesis by simp
    next
      case False
      with Cons.prems(2) have "n \<in> set rest" by simp
      from Cons.IH[OF l this Cons.prems(3,4)] ev show ?thesis by simp
    qed
  next
    fix h c1 ev1 ev'
    assume g: "generate_hep_manifest m (args_node_name a) = ([], Inr (Some h))"
      and l: "main_loop e a rest (hs0 @ [h], c1) = (ev', Inr st)" and ev: "ev = ev1 @ ev'"
    from g generate_skip[OF Cons.prems(3,4), of "args_node_name a"] have "n \<noteq> m" by auto
    with Cons.prems(2) have "n \<in> set rest" by simp
    from Cons.IH[OF l this Cons.prems(3,4)] ev show ?thesis by simp
  qed
qed

lemma main_loop_none_derived:
  "main_loop e a nets (hs0, c) = (ev, Inr (hs0, c')) \<Longrightarrow> (\<forall>x\<in>set ev. is_stderr x) \<and> c' = c"
proof (induction nets arbitrary: ev)
  case Nil
  then show ?case by simp
next
  case (Cons m rest)
  from main_loop_Cons_D[OF Cons.prems(1)] show ?case
  proof (elim disjE exE conjE)
    fix w ev'
    assume g: "generate_hep_manifest m (args_node_name a) = (w, Inr None)"
      and l: "main_loop e a rest (hs0, c) = (ev', Inr (hs0, c'))" and ev: "ev = w @ ev'"
    from g have "\<forall>x\<in>set w. is_stderr x"
      by (cases "Options m"; cases "Labels m")
         (auto simp: generate_hep_manifest_def field_get_def Let_def split: if_splits)
    with Cons.IH[OF l] ev show ?thesis by auto
  next
    fix h c1 ev1 ev'
    assume "main_loop e a rest (hs0 @ [h], c1) = (ev', Inr (hs0, c'))"
    from main_loop_Inr[OF this] show ?thesis by simp
  qed
qed

lemma main_loop_total:
  assumes "\<forall>n\<in>set nets. Options n \<noteq> Null \<and> Labels n \<noteq> Null"
  shows "\<exists>ev hs ac fc. main_loop e a nets (hs0, c) = (ev, Inr (hs, ac, fc))"
  using assms
proof (induction nets arbitrary: hs0 c)
  case Nil
  show ?case by (cases c) simp
next
  case (Cons n rest)
  from Cons.prems have wf: "Options n \<noteq> Null" "Labels n \<noteq> Null"
    and wfr: "\<forall>n\<in>set rest. Options n \<noteq> Null \<and> Labels n \<noteq> Null" by simp_all
  from generate_wf[OF wf, of "args_node_name a"] show ?case
  proof (elim disjE conjE exE)
    assume g: "generate_hep_manifest n (args_node_name a) = ([warning n], Inr None)"
    from Cons.IH[OF wfr, of hs0 c] show ?thesis
      unfolding main_loop_skip[OF g] by (auto simp: emit_def)
  next
    fix h
    assume g: "generate_hep_manifest n (args_node_name a) = ([], Inr (Some h))"
      and nm: "manifest_name (manifest h) = Inr (bridge_name h)"
    from apply_step_cases[OF nm, of e a n c] obtain eva c1 where
      st: "apply_step e a n h c = (eva, Inr c1)" by blast
    show ?thesis
    proof (cases "args_apply a")
      case True
      from Cons.IH[OF wfr, of "hs0 @ [h]" c1] obtain ev' hs ac fc where
        "main_loop e a rest (hs0 @ [h], c1) = (ev', Inr (hs, ac, fc))" by blast
      with g st True show ?thesis by (simp add: Let_def emit_def)
    next
      case False
      from Cons.IH[OF wfr, of "hs0 @ [h]" c] obtain ev' hs ac fc where
        "main_loop e a rest (hs0 @ [h], c) = (ev', Inr (hs, ac, fc))" by blast
      with g False show ?thesis by (simp add: Let_def emit_def)
    qed
  qed
qed

lemma qualifies_Labels: "qualifies n \<Longrightarrow> Labels n \<noteq> Null"
  by (auto simp: qualifies_iff)

subsection \<open>Determinism of discovery and derivation\<close>

lemma run_command_cong:
  "subprocess_run e1 = subprocess_run e2 \<Longrightarrow> run_command e1 cmd = run_command e2 cmd"
  by (simp add: run_command_def)

lemma inspect_loop_cong:
  assumes "subprocess_run e1 = subprocess_run e2" "json_loads0 e1 = json_loads0 e2"
  shows "inspect_loop e1 ids acc = inspect_loop e2 ids acc"
proof (induction ids arbitrary: acc)
  case Nil
  show ?case by simp
next
  case (Cons i ids)
  show ?case
    by (simp add: run_command_cong[OF assms(1)] assms(2) Cons.IH Let_def split: prod.splits sum.splits)
qed

lemma get_docker_networks_cong:
  assumes "subprocess_run e1 = subprocess_run e2" "json_loads0 e1 = json_loads0 e2"
  shows "get_docker_networks e1 = get_docker_networks e2"
  by (simp add: get_docker_networks_def run_command_cong[OF assms(1)] inspect_loop_cong[OF assms]
           split: prod.splits sum.splits)

lemma generate_Some_name:
  assumes "generate_hep_manifest n node = (ev, Inr (Some h))"
  shows "manifest_name (manifest h) = Inr (bridge_name h)"
proof -
  from generate_Some_D[OF assms] obtain d b where
    "Options n = Dict d" "map_of d bridge_key = Some b" "b \<noteq> []" "Labels n \<noteq> Null" by blast
  from generate_some[OF this, of node] assms show ?thesis
    by (auto simp: manifest_name_hep)
qed

lemma loop_heps_indep:
  assumes "args_node_name a1 = args_node_name a2"
  shows "(case snd (main_loop e1 a1 nets (hs0, c1)) of Inl x \<Rightarrow> Inl x | Inr st \<Rightarrow> Inr (fst st)) =
         (case snd (main_loop e2 a2 nets (hs0, c2)) of Inl x \<Rightarrow> Inl x | Inr st \<Rightarrow> Inr (fst st))"
proof (induction nets arbitrary: hs0 c1 c2)
  case Nil
  show ?case by simp
next
  case (Cons n rest)
  obtain w r where g: "generate_hep_manifest n (args_node_name a2) = (w, r)"
    by (cases "generate_hep_manifest n (args_node_name a2)")
  show ?case
  proof (cases r)
    case (Inl x)
    with g assms show ?thesis by simp
  next
    case (Inr o1)
    show ?thesis
    proof (cases o1)
      case None
      with g Inr assms Cons.IH[of hs0 c1 c2] show ?thesis
        by (simp add: emit_def)
    next
      case (Some h)
      with g Inr have g2: "generate_hep_manifest n (args_node_name a2) = (w, Inr (Some h))" by simp
      from generate_Some_name[OF g2] have nm: "manifest_name (manifest h) = Inr (bridge_name h)" .
      from apply_step_cases[OF nm, of e1 a1 n c1] obtain ev1 d1 where
        s1: "apply_step e1 a1 n h c1 = (ev1, Inr d1)" by blast
      from apply_step_cases[OF nm, of e2 a2 n c2] obtain ev2 d2 where
        s2: "apply_step e2 a2 n h c2 = (ev2, Inr d2)" by blast
      have l1: "snd (main_loop e1 a1 (n # rest) (hs0, c1)) =
                snd (main_loop e1 a1 rest (hs0 @ [h], if args_apply a1 then d1 else c1))"
        using g2 assms s1 by (simp add: Let_def emit_def)
      have l2: "snd (main_loop e2 a2 (n # rest) (hs0, c2)) =
                snd (main_loop e2 a2 rest (hs0 @ [h], if args_apply a2 then d2 else c2))"
        using g2 s2 by (simp add: Let_def emit_def)
      show ?thesis unfolding l1 l2 by (rule Cons.IH)
    qed
  qed
qed

text \<open>
  Claim C8. Discovery and derivation are deterministic in the runtime's answers and the
  node name: two runs that see the same answers to the docker commands (the same
  sequence of network descriptors) and are given the same node name derive the same
  entries, with the same manifests, whatever the mode flags, the output directory and
  the answers of the policy engine are. If one run ends in an exception, so does the
  other, with the same exception.
\<close>

theorem pipeline_deterministic:
  assumes "subprocess_run e1 = subprocess_run e2"
      and "json_loads0 e1 = json_loads0 e2"
      and "args_node_name a1 = args_node_name a2"
  shows "pipeline_heps e1 a1 = pipeline_heps e2 a2"
proof -
  have eq: "get_docker_networks e1 = get_docker_networks e2"
    by (rule get_docker_networks_cong[OF assms(1,2)])
  obtain ev r where g: "get_docker_networks e2 = (ev, r)"
    by (cases "get_docker_networks e2")
  show ?thesis
  proof (cases r)
    case (Inl x)
    with g eq show ?thesis by (simp add: pipeline_heps_def)
  next
    case (Inr nets)
    with g eq loop_heps_indep[OF assms(3), of e1 nets "[]" "(0, 0)" e2 "(0, 0)"]
    show ?thesis by (simp add: pipeline_heps_def)
  qed
qed

lemma example_pipeline: "pipeline_heps example_env apply_args = Inr [hep_web]"
  by code_simp

theorem pipeline_deterministic_witness:
  "pipeline_heps example_env apply_args = Inr [hep_web] \<and>
   pipeline_heps accepting_env files_args = Inr [hep_web]"
proof -
  have 1: "subprocess_run example_env = subprocess_run accepting_env"
    by (simp add: accepting_env_def)
  have 2: "json_loads0 example_env = json_loads0 accepting_env"
    by (simp add: accepting_env_def)
  have 3: "args_node_name apply_args = args_node_name files_args"
    by (simp add: apply_args_def files_args_def)
  from pipeline_deterministic[OF 1 2 3] example_pipeline show ?thesis by simp
qed

subsection \<open>The filter\<close>

lemma example_networks:
  "get_docker_networks example_env =
     ([Exec ls_cmd, Exec (inspect_cmd ''aaa''), Exec (inspect_cmd ''bbb''), Exec (inspect_cmd ''ccc'')],
      Inr [net_web, net_nobridge])"
  by code_simp

lemma example_listing_loop:
  "main_loop example_env list_args [net_web, net_nobridge] ([], 0, 0) =
     ([warning net_nobridge], Inr ([hep_web], 0, 0))"
  by code_simp

text \<open>
  Claim C1. The filter of the enumeration accepts a descriptor exactly when its label
  mapping contains the key \<open>netpol.app\<close>, whatever value is stored under it. The
  networks the enumeration returns are the inspected descriptors that pass the filter, in
  order, and the entries of a run are derived from these networks only: a network whose
  labels lack the key is not among them and no entry is derived for it.
\<close>

theorem filter_completeness:
  assumes "get_docker_networks e = (ev, Inr nets)"
      and "main_loop e a nets ([], 0, 0) = (ev', Inr (heps, cnt))"
  shows "(\<forall>n. qualifies n \<longleftrightarrow> (\<exists>d v. Labels n = Dict d \<and> map_of d ''netpol.app'' = Some v))
       \<and> nets = filter qualifies (List.map_filter (inspected e) (network_ids e))
       \<and> (\<forall>n. \<not> qualifies n \<longrightarrow> n \<notin> set nets)
       \<and> heps = List.map_filter (derive (args_node_name a)) nets"
proof -
  have 1: "\<forall>n. qualifies n \<longleftrightarrow> (\<exists>d v. Labels n = Dict d \<and> map_of d ''netpol.app'' = Some v)"
    by (auto simp: qualifies_iff)
  have 2: "nets = filter qualifies (List.map_filter (inspected e) (network_ids e))"
    by (rule get_docker_networks_Inr(1)[OF assms(1)])
  from 2 have 3: "\<forall>n. \<not> qualifies n \<longrightarrow> n \<notin> set nets"
    by auto
  from main_loop_Inr[OF assms(2)] have 4: "heps = List.map_filter (derive (args_node_name a)) nets"
    by simp
  from 1 2 3 4 show ?thesis by blast
qed

theorem filter_completeness_witness:
  "qualifies net_nobridge \<and> \<not> qualifies net_plain
   \<and> List.map_filter (inspected example_env) (network_ids example_env) = [net_web, net_plain, net_nobridge]
   \<and> filter qualifies (List.map_filter (inspected example_env) (network_ids example_env)) = [net_web, net_nobridge]
   \<and> List.map_filter (derive (args_node_name list_args)) [net_web, net_nobridge] = [hep_web]"
proof -
  have q: "qualifies net_nobridge" "\<not> qualifies net_plain" by code_simp+
  have i: "List.map_filter (inspected example_env) (network_ids example_env) = [net_web, net_plain, net_nobridge]"
    by code_simp
  from filter_completeness[OF example_networks example_listing_loop]
  have a: "[net_web, net_nobridge] =
             filter qualifies (List.map_filter (inspected example_env) (network_ids example_env))"
    and b: "[hep_web] = List.map_filter (derive (args_node_name list_args)) [net_web, net_nobridge]"
    by blast+
  from q i a[symmetric] b[symmetric] show ?thesis by blast
qed

subsection \<open>Derivation of one manifest\<close>

text \<open>
  Claim C6. Every derived manifest is the document with the members \<open>apiVersion\<close>,
  \<open>kind\<close>, \<open>metadata\<close> (with \<open>name\<close> and \<open>labels\<close>, the latter with \<open>app\<close>,
  \<open>app-id\<close> and \<open>role\<close>) and \<open>spec\<close> (with \<open>node\<close> and \<open>interfaceName\<close>), in
  this nesting; \<open>metadata.name\<close> and \<open>spec.interfaceName\<close> are the bridge name found in the
  driver options, and \<open>spec.node\<close> is the node name given to the derivation.
\<close>

theorem manifest_shape:
  assumes "generate_hep_manifest n node = (ev, Inr (Some h))"
  shows "\<exists>d b x y z. Options n = Dict d \<and> map_of d bridge_key = Some b \<and>
           manifest h = PDict [
             (''apiVersion'', PStr ''projectcalico.org/v3''),
             (''kind'', PStr ''HostEndpoint''),
             (''metadata'', PDict [
                (''name'', PStr b),
                (''labels'', PDict [(''app'', PStr x), (''app-id'', PStr y), (''role'', PStr z)])]),
             (''spec'', PDict [(''node'', PStr node), (''interfaceName'', PStr b)])]"
proof -
  from generate_Some_D[OF assms] obtain d b where
    f: "Options n = Dict d" "map_of d bridge_key = Some b" "b \<noteq> []" "Labels n \<noteq> Null" by blast
  from generate_some[OF f, of node] assms have
    "manifest h = hep_manifest b (dict_get (raw_labels n) ''netpol.app'' ''unknown'')
                        (dict_get (raw_labels n) ''netpol.app_id'' ''unknown'')
                        (dict_get (raw_labels n) ''netpol.role'' ''unknown'') node"
    by auto
  with f(1,2) show ?thesis unfolding hep_manifest_def by blast
qed

lemma example_generate: "generate_hep_manifest net_web ''node1'' = ([], Inr (Some hep_web))"
  by code_simp

theorem manifest_shape_witness:
  "generate_hep_manifest net_web ''node1'' = ([], Inr (Some hep_web)) \<and>
   getitem (manifest hep_web) ''kind'' = Inr (PStr ''HostEndpoint'') \<and>
   manifest_name (manifest hep_web) = Inr ''br-aaa'' \<and>
   getitem (manifest hep_web) ''spec'' = Inr (PDict [(''node'', PStr ''node1''), (''interfaceName'', PStr ''br-aaa'')])"
  using manifest_shape[OF example_generate] example_generate
  by (auto simp: manifest_name_def net_web_def bridge_key_def)

lemma manifest_label_hep:
  "manifest_label (hep_manifest b x y z node) ''app'' = Inr (PStr x)"
  "manifest_label (hep_manifest b x y z node) ''app-id'' = Inr (PStr y)"
  "manifest_label (hep_manifest b x y z node) ''role'' = Inr (PStr z)"
  by (simp_all add: manifest_label_def hep_manifest_def)

text \<open>
  Claim C2. For every network descriptor whose driver options contain the bridge name
  with a non-empty value, the derivation returns exactly one entry and prints nothing.
  The descriptors are those whose \<open>Labels\<close> member is a mapping or is missing; every
  network that passes the filter of the enumeration is one (\<open>qualifies_Labels\<close>), and
  the derivation is called on no other.
  In its manifest each of the labels \<open>app\<close>, \<open>app-id\<close> and \<open>role\<close> is the value of
  its own source label (\<open>netpol.app\<close>, \<open>netpol.app_id\<close>, \<open>netpol.role\<close>) when that
  label is present, and \<open>unknown\<close> when it is absent, whatever the other two labels are.
\<close>

theorem label_defaults_independent:
  assumes "Options n = Dict d" and "map_of d bridge_key = Some b" and "b \<noteq> []"
      and "Labels n \<noteq> Null"
  shows "\<exists>h. generate_hep_manifest n node = ([], Inr (Some h))
       \<and> derive node n = Some h
       \<and> manifest_label (manifest h) ''app'' =
           Inr (PStr (case map_of (raw_labels n) ''netpol.app'' of None \<Rightarrow> ''unknown'' | Some v \<Rightarrow> v))
       \<and> manifest_label (manifest h) ''app-id'' =
           Inr (PStr (case map_of (raw_labels n) ''netpol.app_id'' of None \<Rightarrow> ''unknown'' | Some v \<Rightarrow> v))
       \<and> manifest_label (manifest h) ''role'' =
           Inr (PStr (case map_of (raw_labels n) ''netpol.role'' of None \<Rightarrow> ''unknown'' | Some v \<Rightarrow> v))"
  using generate_some[OF assms, of node]
  by (simp add: derive_def manifest_label_hep dict_get_def)

theorem label_defaults_independent_witness:
  "generate_hep_manifest net_web ''node1'' = ([], Inr (Some hep_web))
   \<and> manifest_label (manifest hep_web) ''app'' = Inr (PStr ''web'')
   \<and> manifest_label (manifest hep_web) ''app-id'' = Inr (PStr ''unknown'')
   \<and> manifest_label (manifest hep_web) ''role'' = Inr (PStr ''unknown'')"
proof -
  have 1: "Options net_web = Dict [(''com.docker.network.bridge.name'', ''br-aaa'')]"
    by (simp add: net_web_def)
  have 2: "map_of [(''com.docker.network.bridge.name'', ''br-aaa'')] bridge_key = Some ''br-aaa''"
    by (simp add: bridge_key_def)
  have 3: "''br-aaa'' \<noteq> []" by simp
  have 4: "Labels net_web \<noteq> Null" by (simp add: net_web_def)
  have 5: "raw_labels net_web = [(''netpol.app'', ''web'')]" by (simp add: raw_labels_def net_web_def)
  from label_defaults_independent[OF 1 2 3 4, of "''node1''"] example_generate
  show ?thesis by (auto simp: 5)
qed

subsection \<open>Descriptors without labels, empty bridge names\<close>

lemma inspect_loop_unlabelled:
  assumes "i \<noteq> []" and "subprocess_run e (inspect_cmd i) = Completed raw"
      and "\<not> qualifies (json_loads0 e (strip raw))"
  shows "inspect_loop e (i # ids) acc = emit [Exec (inspect_cmd i)] (inspect_loop e ids acc)"
  using assms by (simp add: run_command_def qualifies_def Let_def)

text \<open>
  Claim C10. A descriptor whose \<open>Labels\<close> member is missing or JSON null does not pass
  the filter, and the enumeration loop goes on to the next identifier without raising and
  without keeping it. A descriptor whose bridge-name option holds the empty string is
  handled as the same descriptor with the option removed: a warning, and no entry.
\<close>

theorem unlabelled_and_empty_bridge:
  "(Labels n = Absent \<or> Labels n = Null \<longrightarrow>
      \<not> qualifies n \<and>
      (\<forall>e i raw ids acc. i \<noteq> [] \<and> subprocess_run e (inspect_cmd i) = Completed raw
          \<and> json_loads0 e (strip raw) = n \<longrightarrow>
        inspect_loop e (i # ids) acc = emit [Exec (inspect_cmd i)] (inspect_loop e ids acc)))
   \<and> (Options n = Dict d \<and> map_of d bridge_key = Some [] \<longrightarrow>
        generate_hep_manifest n node = ([warning n], Inr None)
        \<and> lacks_bridge (n\<lparr>Options := Dict (filter (\<lambda>kv. fst kv \<noteq> bridge_key) d)\<rparr>)
        \<and> generate_hep_manifest (n\<lparr>Options := Dict (filter (\<lambda>kv. fst kv \<noteq> bridge_key) d)\<rparr>) node
            = generate_hep_manifest n node)"
proof (intro conjI impI)
  assume a: "Labels n = Absent \<or> Labels n = Null"
  then show q: "\<not> qualifies n" by (auto simp: qualifies_iff)
  show "\<forall>e i raw ids acc. i \<noteq> [] \<and> subprocess_run e (inspect_cmd i) = Completed raw
          \<and> json_loads0 e (strip raw) = n \<longrightarrow>
        inspect_loop e (i # ids) acc = emit [Exec (inspect_cmd i)] (inspect_loop e ids acc)"
    using q inspect_loop_unlabelled by blast
next
  assume b: "Options n = Dict d \<and> map_of d bridge_key = Some []"
  let ?n = "n\<lparr>Options := Dict (filter (\<lambda>kv. fst kv \<noteq> bridge_key) d)\<rparr>"
  from b show g: "generate_hep_manifest n node = ([warning n], Inr None)"
    by (simp add: generate_empty)
  have m: "map_of (filter (\<lambda>kv. fst kv \<noteq> bridge_key) d) bridge_key = None"
    by (induction d) auto
  then show l: "lacks_bridge ?n" by (simp add: lacks_bridge_def)
  have "Options ?n \<noteq> Null" by simp
  from generate_skip[OF l this, of node] g show "generate_hep_manifest ?n node = generate_hep_manifest n node"
    by (simp add: warning_def)
qed

theorem unlabelled_and_empty_bridge_witness:
  "\<not> qualifies net_nolabels
   \<and> generate_hep_manifest net_emptybridge ''node1''
       = ([Stderr ''Warning: No bridge name found for network db_net''], Inr None)
   \<and> generate_hep_manifest (net_emptybridge\<lparr>Options := Dict []\<rparr>) ''node1''
       = ([Stderr ''Warning: No bridge name found for network db_net''], Inr None)"
proof -
  have 1: "Labels net_nolabels = Absent \<or> Labels net_nolabels = Null"
    by (simp add: net_nolabels_def)
  have 2: "Options net_emptybridge = Dict [(''com.docker.network.bridge.name'', [])]
           \<and> map_of [(''com.docker.network.bridge.name'', [])] bridge_key = Some []"
    by (simp add: net_emptybridge_def bridge_key_def)
  have 3: "filter (\<lambda>kv. fst kv \<noteq> bridge_key) [(''com.docker.network.bridge.name'', [])] = []"
    by (simp add: bridge_key_def)
  have 4: "warning net_emptybridge = Stderr ''Warning: No bridge name found for network db_net''"
    by (simp add: warning_def net_emptybridge_def)
  from unlabelled_and_empty_bridge[of net_nolabels "[(''com.docker.network.bridge.name'', [])]" "''node1''"] 1
  have a: "\<not> qualifies net_nolabels" by blast
  from unlabelled_and_empty_bridge[of net_emptybridge "[(''com.docker.network.bridge.name'', [])]" "''node1''"] 2
  have b: "generate_hep_manifest net_emptybridge ''node1'' = ([warning net_emptybridge], Inr None)"
    and c: "generate_hep_manifest (net_emptybridge\<lparr>Options := Dict (filter (\<lambda>kv. fst kv \<noteq> bridge_key) [(''com.docker.network.bridge.name'', [])])\<rparr>) ''node1''
            = generate_hep_manifest net_emptybridge ''node1''"
    by blast+
  from a b c show ?thesis unfolding 3 4 by simp
qed

subsection \<open>Failure of the enumeration\<close>

lemma inspect_loop_fail:
  assumes "\<exists>i\<in>set ids. i \<noteq> [] \<and> fails e (inspect_cmd i)"
  shows "\<exists>pre c. (\<forall>p\<in>set pre. \<not> fails e p) \<and> fails e c \<and>
           ((\<exists>m. inspect_loop e ids acc = (map Exec pre @ [Exec c], Inl (OSError m))) \<or>
            (\<exists>s. inspect_loop e ids acc = (map Exec pre @ [Exec c, Stderr s], Inl (SystemExit 1))))"
  using assms
proof (induction ids arbitrary: acc)
  case Nil
  then show ?case by simp
next
  case (Cons i ids)
  show ?case
  proof (cases "i \<noteq> [] \<and> fails e (inspect_cmd i)")
    case True
    from run_command_fail[of e "inspect_cmd i"] True
    have "(\<exists>m. run_command e (inspect_cmd i) = ([Exec (inspect_cmd i)], Inl (OSError m))) \<or>
          (\<exists>s. run_command e (inspect_cmd i) = ([Exec (inspect_cmd i), Stderr s], Inl (SystemExit 1)))"
      by auto
    with True have
      "(\<forall>p\<in>set []. \<not> fails e p) \<and> fails e (inspect_cmd i) \<and>
       ((\<exists>m. inspect_loop e (i # ids) acc = (map Exec [] @ [Exec (inspect_cmd i)], Inl (OSError m))) \<or>
        (\<exists>s. inspect_loop e (i # ids) acc = (map Exec [] @ [Exec (inspect_cmd i), Stderr s], Inl (SystemExit 1))))"
      by auto
    then show ?thesis by blast
  next
    case False
    with Cons.prems have ex: "\<exists>i\<in>set ids. i \<noteq> [] \<and> fails e (inspect_cmd i)" by auto
    show ?thesis
    proof (cases "i = []")
      case True
      with Cons.IH[OF ex, of acc] show ?thesis by simp
    next
      case ne: False
      with False have nf: "\<not> fails e (inspect_cmd i)" by simp
      from run_command_ok[OF nf] obtain raw where
        rc: "run_command e (inspect_cmd i) = ([Exec (inspect_cmd i)], Inr (strip raw))" by blast
      let ?acc = "if qualifies (json_loads0 e (strip raw)) then acc @ [json_loads0 e (strip raw)] else acc"
      have step: "inspect_loop e (i # ids) acc = emit [Exec (inspect_cmd i)] (inspect_loop e ids ?acc)"
        using ne rc by (simp add: Let_def qualifies_def)
      from Cons.IH[OF ex, of ?acc] obtain pre c where
        p: "\<forall>p\<in>set pre. \<not> fails e p" and c: "fails e c" and
        r: "(\<exists>m. inspect_loop e ids ?acc = (map Exec pre @ [Exec c], Inl (OSError m))) \<or>
            (\<exists>s. inspect_loop e ids ?acc = (map Exec pre @ [Exec c, Stderr s], Inl (SystemExit 1)))"
        by blast
      from p nf have p': "\<forall>p\<in>set (inspect_cmd i # pre). \<not> fails e p" by simp
      from r have
        "(\<exists>m. inspect_loop e (i # ids) acc = (map Exec (inspect_cmd i # pre) @ [Exec c], Inl (OSError m))) \<or>
         (\<exists>s. inspect_loop e (i # ids) acc = (map Exec (inspect_cmd i # pre) @ [Exec c, Stderr s], Inl (SystemExit 1)))"
        unfolding step by (auto simp: emit_def)
      with p' c show ?thesis by blast
    qed
  qed
qed

lemma get_docker_networks_fail:
  assumes "fails e ls_cmd \<or> (\<exists>i\<in>set (network_ids e). fails e (inspect_cmd i))"
  shows "\<exists>pre c. (\<forall>p\<in>set pre. \<not> fails e p) \<and> fails e c \<and>
           ((\<exists>m. get_docker_networks e = (map Exec pre @ [Exec c], Inl (OSError m))) \<or>
            (\<exists>s. get_docker_networks e = (map Exec pre @ [Exec c, Stderr s], Inl (SystemExit 1))))"
proof (cases "fails e ls_cmd")
  case True
  from run_command_fail[OF True]
  have "(\<exists>m. run_command e ls_cmd = ([Exec ls_cmd], Inl (OSError m))) \<or>
        (\<exists>s. run_command e ls_cmd = ([Exec ls_cmd, Stderr s], Inl (SystemExit 1)))"
    by auto
  then have
    "(\<forall>p\<in>set []. \<not> fails e p) \<and> fails e ls_cmd \<and>
     ((\<exists>m. get_docker_networks e = (map Exec [] @ [Exec ls_cmd], Inl (OSError m))) \<or>
      (\<exists>s. get_docker_networks e = (map Exec [] @ [Exec ls_cmd, Stderr s], Inl (SystemExit 1))))"
    using True by (auto simp: get_docker_networks_def)
  then show ?thesis by blast
next
  case False
  with assms have ex: "\<exists>i\<in>set (network_ids e). fails e (inspect_cmd i)" by simp
  from run_command_ok[OF False] obtain raw where
    raw: "subprocess_run e ls_cmd = Completed raw"
    and rc: "run_command e ls_cmd = ([Exec ls_cmd], Inr (strip raw))" by blast
  have ids: "network_ids e = filter (\<lambda>i. i \<noteq> []) (split_nl (strip raw))"
    by (simp add: network_ids_def raw)
  with ex have ne: "strip raw \<noteq> []" by auto
  from ex ids have ex': "\<exists>i\<in>set (split_nl (strip raw)). i \<noteq> [] \<and> fails e (inspect_cmd i)" by auto
  have step: "get_docker_networks e = emit [Exec ls_cmd] (inspect_loop e (split_nl (strip raw)) [])"
    using rc ne by (simp add: get_docker_networks_def)
  from inspect_loop_fail[OF ex', of "[]"] obtain pre c where
    p: "\<forall>p\<in>set pre. \<not> fails e p" and c: "fails e c" and
    r: "(\<exists>m. inspect_loop e (split_nl (strip raw)) [] = (map Exec pre @ [Exec c], Inl (OSError m))) \<or>
        (\<exists>s. inspect_loop e (split_nl (strip raw)) [] = (map Exec pre @ [Exec c, Stderr s], Inl (SystemExit 1)))"
    by blast
  from p False have p': "\<forall>p\<in>set (ls_cmd # pre). \<not> fails e p" by simp
  from r have
    "(\<exists>m. get_docker_networks e = (map Exec (ls_cmd # pre) @ [Exec c], Inl (OSError m))) \<or>
     (\<exists>s. get_docker_networks e = (map Exec (ls_cmd # pre) @ [Exec c, Stderr s], Inl (SystemExit 1)))"
    unfolding step by (auto simp: emit_def)
  with p' c show ?thesis by blast
qed

text \<open>
  Claim C4. If the listing command or the inspection of one of the listed networks cannot
  be started or ends with a non-zero status, the run ends with exit status 1. Its trace
  consists of the docker commands run so far, the last of which is the first one that
  failed, followed by one diagnostic on the error stream: nothing is printed on standard
  output, no file is written and the apply helper is not called.
\<close>

theorem enumeration_failure_aborts:
  assumes "fails e ls_cmd \<or> (\<exists>i\<in>set (network_ids e). fails e (inspect_cmd i))"
  shows "snd (script e a) = 1 \<and>
         (\<exists>pre c diag. fst (script e a) = map Exec pre @ [Exec c, diag] \<and> is_stderr diag
            \<and> fails e c \<and> (\<forall>p\<in>set pre. \<not> fails e p))"
proof -
  from get_docker_networks_fail[OF assms] obtain pre c where
    p: "\<forall>p\<in>set pre. \<not> fails e p" and c: "fails e c" and
    r: "(\<exists>m. get_docker_networks e = (map Exec pre @ [Exec c], Inl (OSError m))) \<or>
        (\<exists>s. get_docker_networks e = (map Exec pre @ [Exec c, Stderr s], Inl (SystemExit 1)))"
    by blast
  from r show ?thesis
  proof (elim disjE exE)
    fix m
    assume "get_docker_networks e = (map Exec pre @ [Exec c], Inl (OSError m))"
    then have "script e a = (map Exec pre @ [Exec c, Traceback (OSError m)], 1)"
      by (simp add: script_def main_def)
    with p c show ?thesis by (metis fst_conv snd_conv is_stderr.simps(2))
  next
    fix s
    assume "get_docker_networks e = (map Exec pre @ [Exec c, Stderr s], Inl (SystemExit 1))"
    then have "script e a = (map Exec pre @ [Exec c, Stderr s], 1)"
      by (simp add: script_def main_def)
    with p c show ?thesis by (metis fst_conv snd_conv is_stderr.simps(1))
  qed
qed

theorem enumeration_failure_aborts_witness:
  "fails failing_env (inspect_cmd ''bbb'') \<and> snd (script failing_env list_args) = 1
   \<and> script failing_env list_args =
       ([Exec ls_cmd, Exec (inspect_cmd ''aaa''), Exec (inspect_cmd ''bbb''),
         Stderr ''Error running command docker network inspect bbb: exit status 1''], 1)"
proof -
  have f: "fails failing_env (inspect_cmd ''bbb'')" by code_simp
  have i: "network_ids failing_env = [''aaa'', ''bbb'']" by code_simp
  from f i have h: "fails failing_env ls_cmd \<or>
      (\<exists>i\<in>set (network_ids failing_env). fails failing_env (inspect_cmd i))" by simp
  have s: "script failing_env list_args =
       ([Exec ls_cmd, Exec (inspect_cmd ''aaa''), Exec (inspect_cmd ''bbb''),
         Stderr ''Error running command docker network inspect bbb: exit status 1''], 1)"
    by code_simp
  from enumeration_failure_aborts[OF h, of list_args] f s show ?thesis by blast
qed

subsection \<open>Runs after a successful enumeration\<close>

lemma exec_not_stdout: "filter is_stdout (map Exec cs) = []"
  by (induction cs) simp_all

lemma enumeration_events:
  assumes "get_docker_networks e = (ev, Inr nets)"
  shows "filter is_stdout ev = []" and "filter is_call ev = []"
proof -
  from get_docker_networks_Inr(2)[OF assms]
  have ev: "ev = map Exec (ls_cmd # map inspect_cmd (network_ids e))" by (simp add: comp_def)
  show "filter is_stdout ev = []" unfolding ev by (rule exec_not_stdout)
  show "filter is_call ev = []" unfolding ev
    by (induction "ls_cmd # map inspect_cmd (network_ids e)") simp_all
qed

lemma stderr_not_stdout: "\<forall>x\<in>set ev. is_stderr x \<Longrightarrow> filter is_stdout ev = []"
proof (induction ev)
  case Nil
  show ?case by simp
next
  case (Cons x ev)
  then show ?case by (cases x) simp_all
qed

lemma script_listing:
  assumes "\<not> args_apply a" and "get_docker_networks e = (ev, Inr nets)"
      and "main_loop e a nets ([], 0, 0) = (ev', Inr (heps, cnt))"
  shows "script e a = (ev @ ev' @ [Stdout (json_dumps 0 (PList (map hep_doc heps)))], 0)"
proof (cases "nets = []")
  case True
  with assms(3) have "ev' = []" "heps = []" by simp_all
  with True assms(1,2) show ?thesis by (simp add: script_def main_def)
next
  case False
  obtain ac fc where "cnt = (ac, fc)" by (cases cnt)
  with False assms show ?thesis by (simp add: script_def main_def)
qed

text \<open>
  Claim C7. In listing mode, when the enumeration finds no qualifying network, or when the
  loop over the qualifying networks derives no entry, the only line the run prints on
  standard output is \<open>[]\<close>, the JSON text of the empty array, and the exit status is 0.
\<close>

theorem listing_empty_collection:
  assumes "\<not> args_apply a" and "get_docker_networks e = (ev, Inr nets)"
      and "nets = [] \<or> (\<exists>ev' cnt. main_loop e a nets ([], 0, 0) = (ev', Inr ([], cnt)))"
  shows "filter is_stdout (fst (script e a)) = [Stdout (json_dumps 0 (PList []))]
       \<and> json_dumps 0 (PList []) = ''[]''
       \<and> snd (script e a) = 0"
proof -
  from assms(3) obtain ev' cnt where l: "main_loop e a nets ([], 0, 0) = (ev', Inr ([], cnt))"
    by auto
  from main_loop_none_derived[of e a nets "[]" "(0, 0)" ev' cnt] l
  have "\<forall>x\<in>set ev'. is_stderr x" by simp
  then have 1: "filter is_stdout ev' = []" by (rule stderr_not_stdout)
  from script_listing[OF assms(1,2) l] enumeration_events(1)[OF assms(2)] 1
  show ?thesis by simp
qed

lemma skip_networks: "get_docker_networks skip_env = ([Exec ls_cmd, Exec (inspect_cmd ''ccc'')], Inr [net_nobridge])"
  by code_simp

lemma skip_loop: "main_loop skip_env list_args [net_nobridge] ([], 0, 0) = ([warning net_nobridge], Inr ([], 0, 0))"
  by code_simp

lemma empty_networks: "get_docker_networks empty_env = ([Exec ls_cmd], Inr [])"
  by code_simp

theorem listing_empty_collection_witness:
  "filter is_stdout (fst (script empty_env list_args)) = [Stdout ''[]'']
   \<and> snd (script empty_env list_args) = 0
   \<and> filter is_stdout (fst (script skip_env list_args)) = [Stdout ''[]'']
   \<and> snd (script skip_env list_args) = 0"
proof -
  have m: "\<not> args_apply list_args" by (simp add: list_args_def)
  have 1: "[] = ([] :: network list) \<or>
           (\<exists>ev' cnt. main_loop empty_env list_args [] ([], 0, 0) = (ev', Inr ([], cnt)))"
    by simp
  have 2: "[net_nobridge] = [] \<or>
           (\<exists>ev' cnt. main_loop skip_env list_args [net_nobridge] ([], 0, 0) = (ev', Inr ([], cnt)))"
    using skip_loop by blast
  from listing_empty_collection[OF m empty_networks 1] listing_empty_collection[OF m skip_networks 2]
  show ?thesis by simp
qed

lemma length_outcomes: "length (outcomes e a k ms) = length ms"
  by (induction ms arbitrary: k) simp_all

lemma filter_split_length:
  "length (filter (\<lambda>b. b) os) + length (filter (\<lambda>b. \<not> b) os) = length os"
  by (induction os) simp_all

lemma failed_count_pos: "0 < length (filter (\<lambda>b. \<not> b) os) \<longleftrightarrow> (\<exists>b\<in>set os. \<not> b)"
  by (induction os) auto

lemma script_apply:
  assumes "args_apply a" and "get_docker_networks e = (ev, Inr nets)" and "nets \<noteq> []"
      and "main_loop e a nets ([], 0, 0) = (ev', Inr (heps, ac, fc))"
  shows "script e a = (ev @ ev' @ [Stdout (summary_line ac fc)], if 0 < fc then 1 else 0)"
  using assms by (simp add: script_def main_def)

text \<open>
  Claim C3, as amended. In apply mode, when the enumeration succeeds with at least one
  qualifying network and the driver options of every qualifying network are a mapping
  or missing: the apply helper is called once for every derived manifest, in order,
  whatever the results of the earlier calls were; the last line of the run is the
  summary line with the number of calls that succeeded and the number that failed, which
  together are the number of derived manifests; and the exit status is 1 if at least one
  call failed and 0 otherwise.
\<close>

theorem apply_partial_failure:
  assumes "args_apply a" and "get_docker_networks e = (ev, Inr nets)" and "nets \<noteq> []"
      and "\<forall>m\<in>set nets. Options m \<noteq> Null"
      and "hs = List.map_filter (derive (args_node_name a)) nets"
      and "os = outcomes e a 0 (map manifest hs)"
  shows "filter is_call (fst (script e a)) =
           map (\<lambda>h. CallHelper (helper_cmd (args_dry_run a)) (manifest h)) hs
       \<and> last (fst (script e a)) =
           Stdout (summary_line (length (filter (\<lambda>b. b) os)) (length (filter (\<lambda>b. \<not> b) os)))
       \<and> length (filter (\<lambda>b. b) os) + length (filter (\<lambda>b. \<not> b) os) = length hs
       \<and> snd (script e a) = (if \<exists>b\<in>set os. \<not> b then 1 else 0)"
proof -
  from get_docker_networks_Inr(1)[OF assms(2)] have "\<forall>m\<in>set nets. qualifies m" by auto
  with assms(4) have wf: "\<forall>n\<in>set nets. Options n \<noteq> Null \<and> Labels n \<noteq> Null"
    by (auto dest: qualifies_Labels)
  from main_loop_apply[OF assms(1) wf, of e "[]" 0 0] obtain ev' where
    l: "main_loop e a nets ([], 0, 0) =
          (ev', Inr (hs, length (filter (\<lambda>b. b) os), length (filter (\<lambda>b. \<not> b) os)))"
    and c: "filter is_call ev' = map (\<lambda>h. CallHelper (helper_cmd (args_dry_run a)) (manifest h)) hs"
    unfolding assms(5,6) by auto
  note s = script_apply[OF assms(1,2,3) l]
  have 1: "filter is_call (fst (script e a)) =
           map (\<lambda>h. CallHelper (helper_cmd (args_dry_run a)) (manifest h)) hs"
    unfolding s using c enumeration_events(2)[OF assms(2)] by simp
  have 2: "last (fst (script e a)) =
           Stdout (summary_line (length (filter (\<lambda>b. b) os)) (length (filter (\<lambda>b. \<not> b) os)))"
    unfolding s by simp
  have 3: "length (filter (\<lambda>b. b) os) + length (filter (\<lambda>b. \<not> b) os) = length hs"
    unfolding filter_split_length assms(6) by (simp add: length_outcomes)
  have 4: "snd (script e a) = (if \<exists>b\<in>set os. \<not> b then 1 else 0)"
    unfolding s using failed_count_pos[of os] by simp
  from 1 2 3 4 show ?thesis by blast
qed

lemma example_derived: "List.map_filter (derive (args_node_name apply_args)) [net_web, net_nobridge] = [hep_web]"
  by code_simp

lemma example_outcomes: "outcomes example_env apply_args 0 (map manifest [hep_web]) = [False]"
  by code_simp

theorem apply_partial_failure_witness:
  "filter is_call (fst (script example_env apply_args)) =
     [CallHelper [''/usr/local/bin/apply_calico_manifests.sh''] (manifest hep_web)]
   \<and> last (fst (script example_env apply_args)) = Stdout (CHR 0x0A # ''Summary: 0 applied, 1 failed'')
   \<and> snd (script example_env apply_args) = 1"
proof -
  have 1: "args_apply apply_args" by (simp add: apply_args_def)
  have 3: "[net_web, net_nobridge] \<noteq> []" by simp
  have 4: "\<forall>m\<in>set [net_web, net_nobridge]. Options m \<noteq> Null"
    by (simp add: net_web_def net_nobridge_def)
  have 5: "helper_cmd (args_dry_run apply_args) = [''/usr/local/bin/apply_calico_manifests.sh'']"
    by (simp add: helper_cmd_def apply_args_def)
  have 6: "summary_line 0 (Suc 0) = CHR 0x0A # ''Summary: 0 applied, 1 failed''"
    by code_simp
  from apply_partial_failure[OF 1 example_networks 3 4 example_derived[symmetric] example_outcomes[symmetric]]
  show ?thesis by (auto simp: 5 6)
qed

text \<open>
  The claim as written, for every run in apply mode, fails on a runtime without qualifying
  networks: the run returns before the loop and prints no summary line.
\<close>

theorem apply_no_networks_counterexample:
  "args_apply apply_args \<and>
   script empty_env apply_args = ([Exec ls_cmd, Stdout ''No networks with netpol labels found''], 0)"
  by (simp add: apply_args_def script_def main_def empty_networks)

text \<open>
  Where the \<open>Options\<close> member of every qualifying network is a mapping or missing, a
  qualifying network without a bridge name yields no entry and the warning on the error
  stream, and the run still ends with exit status 0 when the enumeration succeeds and, in
  apply mode, every call of the apply helper succeeds.
\<close>

theorem missing_bridge_nonfatal:
  assumes "lacks_bridge n" and "get_docker_networks e = (ev, Inr nets)" and "n \<in> set nets"
      and "\<forall>m\<in>set nets. Options m \<noteq> Null"
      and "args_apply a \<longrightarrow>
             (\<forall>b\<in>set (outcomes e a 0 (map manifest (List.map_filter (derive (args_node_name a)) nets))). b)"
  shows "qualifies n
       \<and> generate_hep_manifest n (args_node_name a) = ([warning n], Inr None)
       \<and> derive (args_node_name a) n = None
       \<and> warning n \<in> set (fst (script e a))
       \<and> snd (script e a) = 0"
proof -
  from get_docker_networks_Inr(1)[OF assms(2)] have q: "\<forall>m\<in>set nets. qualifies m" by auto
  with assms(4) have wf: "\<forall>n\<in>set nets. Options n \<noteq> Null \<and> Labels n \<noteq> Null"
    by (auto dest: qualifies_Labels)
  from assms(3) have ne: "nets \<noteq> []" by auto
  from assms(3,4) have nn: "Options n \<noteq> Null" by blast
  note g = generate_skip[OF assms(1) nn, of "args_node_name a"]
  from g have d: "derive (args_node_name a) n = None" by (simp add: derive_def)
  from main_loop_total[OF wf, of e a "[]" "(0, 0)"] obtain ev' hs ac fc where
    l: "main_loop e a nets ([], 0, 0) = (ev', Inr (hs, ac, fc))" by blast
  from main_loop_warning[OF l assms(3) assms(1) nn] have w: "warning n \<in> set ev'" .
  have "warning n \<in> set (fst (script e a)) \<and> snd (script e a) = 0"
  proof (cases "args_apply a")
    case True
    let ?os = "outcomes e a 0 (map manifest (List.map_filter (derive (args_node_name a)) nets))"
    from main_loop_apply[OF True wf, of e "[]" 0 0] l
    have "fc = length (filter (\<lambda>b. \<not> b) ?os)" by auto
    moreover from assms(5) True have "\<not> (\<exists>b\<in>set ?os. \<not> b)" by blast
    ultimately have "fc = 0" using failed_count_pos[of ?os] by simp
    with script_apply[OF True assms(2) ne l] w show ?thesis by simp
  next
    case False
    from script_listing[OF False assms(2) l] w show ?thesis by simp
  qed
  with q assms(3) g d show ?thesis by blast
qed

lemma accepting_networks:
  "get_docker_networks accepting_env =
     ([Exec ls_cmd, Exec (inspect_cmd ''aaa''), Exec (inspect_cmd ''bbb''), Exec (inspect_cmd ''ccc'')],
      Inr [net_web, net_nobridge])"
  by code_simp

lemma accepting_outcomes:
  "outcomes accepting_env apply_args 0
     (map manifest (List.map_filter (derive (args_node_name apply_args)) [net_web, net_nobridge])) = [True]"
  by code_simp

theorem missing_bridge_nonfatal_witness:
  "lacks_bridge net_nobridge
   \<and> derive ''node1'' net_nobridge = None
   \<and> Stderr ''Warning: No bridge name found for network db_net'' \<in> set (fst (script accepting_env apply_args))
   \<and> snd (script accepting_env apply_args) = 0"
proof -
  have 1: "lacks_bridge net_nobridge" by (simp add: lacks_bridge_def net_nobridge_def)
  have 3: "net_nobridge \<in> set [net_web, net_nobridge]" by simp
  have 4: "\<forall>m\<in>set [net_web, net_nobridge]. Options m \<noteq> Null"
    by (simp add: net_web_def net_nobridge_def)
  have 5: "args_apply apply_args \<longrightarrow>
             (\<forall>b\<in>set (outcomes accepting_env apply_args 0
                (map manifest (List.map_filter (derive (args_node_name apply_args)) [net_web, net_nobridge]))). b)"
    unfolding accepting_outcomes by simp
  have 6: "warning net_nobridge = Stderr ''Warning: No bridge name found for network db_net''"
    by (simp add: warning_def net_nobridge_def)
  have 7: "args_node_name apply_args = ''node1''" by (simp add: apply_args_def)
  from missing_bridge_nonfatal[OF 1 accepting_networks 3 4 5] 1
  show ?thesis unfolding 6 7 by blast
qed

text \<open>
  Claim C5 says that every qualifying network whose driver options lack the bridge name
  is skipped with a warning and that the run then ends with exit status 0. Where the
  \<open>Options\<close> member is JSON null the code does not do so: \<^verbatim>\<open>network.get('Options', {})\<close>
  returns \<^verbatim>\<open>None\<close>, \<^verbatim>\<open>options.get\<close> raises \<^verbatim>\<open>AttributeError\<close> before the warning is
  printed, and the run ends with a traceback and exit status 1, in listing mode and in
  apply mode.
\<close>

theorem missing_bridge_null_options:
  "qualifies net_nulloptions \<and> lacks_bridge net_nulloptions
   \<and> get_docker_networks nullopt_env =
        ([Exec ls_cmd, Exec (inspect_cmd ''ddd'')], Inr [net_nulloptions])
   \<and> generate_hep_manifest net_nulloptions ''node1'' = ([], Inl AttributeError)
   \<and> script nullopt_env list_args =
        ([Exec ls_cmd, Exec (inspect_cmd ''ddd''), Traceback AttributeError], 1)
   \<and> script nullopt_env apply_args =
        ([Exec ls_cmd, Exec (inspect_cmd ''ddd''), Traceback AttributeError], 1)"
proof -
  have 1: "qualifies net_nulloptions" by code_simp
  have 2: "lacks_bridge net_nulloptions" by (simp add: lacks_bridge_def net_nulloptions_def)
  have 3: "get_docker_networks nullopt_env =
        ([Exec ls_cmd, Exec (inspect_cmd ''ddd'')], Inr [net_nulloptions])" by code_simp
  have 4: "generate_hep_manifest net_nulloptions ''node1'' = ([], Inl AttributeError)"
    by (simp add: generate_hep_manifest_def field_get_def net_nulloptions_def)
  have 5: "script nullopt_env list_args =
        ([Exec ls_cmd, Exec (inspect_cmd ''ddd''), Traceback AttributeError], 1)" by code_simp
  have 6: "script nullopt_env apply_args =
        ([Exec ls_cmd, Exec (inspect_cmd ''ddd''), Traceback AttributeError], 1)" by code_simp
  from 1 2 3 4 5 6 show ?thesis by blast
qed

subsection \<open>The listing\<close>

lemma derive_Some_D:
  assumes "derive node n = Some h"
  shows "\<exists>w. generate_hep_manifest n node = (w, Inr (Some h))"
proof (cases "generate_hep_manifest n node")
  case (Pair w r)
  with assms show ?thesis
    by (cases r) (auto simp: derive_def split: option.splits)
qed

lemma map_filter_D: "h \<in> set (List.map_filter f xs) \<Longrightarrow> \<exists>x\<in>set xs. f x = Some h"
  by (induction xs) (auto split: option.splits)

lemma derived_entry:
  assumes "qualifies n" and "derive node n = Some h"
  shows "\<exists>ls d b. Labels n = Dict ls \<and> Options n = Dict d \<and> map_of d bridge_key = Some b
           \<and> h = \<lparr> manifest = hep_manifest b (dict_get ls ''netpol.app'' ''unknown'')
                               (dict_get ls ''netpol.app_id'' ''unknown'')
                               (dict_get ls ''netpol.role'' ''unknown'') node,
                    filename = ''hep-'' @ dict_get ls ''netpol.app'' ''unknown'' @ ''-''
                                 @ dict_get ls ''netpol.role'' ''unknown'' @ ''.yaml'',
                    network_name = Name n, bridge_name = b, labels = ls \<rparr>"
proof -
  from assms(1) obtain ls where ls: "Labels n = Dict ls" by (auto simp: qualifies_iff)
  then have raw: "raw_labels n = ls" by (simp add: raw_labels_def)
  from derive_Some_D[OF assms(2)] obtain w where g: "generate_hep_manifest n node = (w, Inr (Some h))"
    by blast
  from generate_Some_D[OF g] obtain d b where
    f: "Options n = Dict d" "map_of d bridge_key = Some b" "b \<noteq> []" "Labels n \<noteq> Null" by blast
  from generate_some[OF f, of node] g raw ls f(1,2) show ?thesis by auto
qed

text \<open>
  Claim C9. In listing mode the run ends by printing the JSON text of the list of entries.
  Every entry comes from a qualifying network with a bridge name and is the document with
  exactly the members \<open>manifest\<close>, \<open>filename\<close>, \<open>network_name\<close>, \<open>bridge_name\<close> and
  \<open>labels\<close>: the file name is \<open>hep-{app}-{role}.yaml\<close> for the \<open>app\<close> and \<open>role\<close>
  labels of the manifest (defaulted to \<open>unknown\<close> where the source label is absent), the
  names are the network's name and bridge name, and \<open>labels\<close> is the network's own label
  mapping, without any default filled in.
\<close>

theorem listing_entries:
  assumes "\<not> args_apply a" and "get_docker_networks e = (ev, Inr nets)"
      and "main_loop e a nets ([], 0, 0) = (ev', Inr (heps, cnt))"
  shows "last (fst (script e a)) = Stdout (json_dumps 0 (PList (map hep_doc heps)))
       \<and> (\<forall>h\<in>set heps. \<exists>n\<in>set nets. \<exists>ls d b app_name role_name.
             Labels n = Dict ls \<and> Options n = Dict d \<and> map_of d bridge_key = Some b
           \<and> manifest_label (manifest h) ''app'' = Inr (PStr app_name)
           \<and> manifest_label (manifest h) ''role'' = Inr (PStr role_name)
           \<and> app_name = (case map_of ls ''netpol.app'' of None \<Rightarrow> ''unknown'' | Some v \<Rightarrow> v)
           \<and> role_name = (case map_of ls ''netpol.role'' of None \<Rightarrow> ''unknown'' | Some v \<Rightarrow> v)
           \<and> hep_doc h = PDict [
                (''manifest'', manifest h),
                (''filename'', PStr (''hep-'' @ app_name @ ''-'' @ role_name @ ''.yaml'')),
                (''network_name'', PStr (Name n)),
                (''bridge_name'', PStr b),
                (''labels'', PDict (map (\<lambda>kv. (fst kv, PStr (snd kv))) ls))])"
proof (intro conjI ballI)
  from script_listing[OF assms] show "last (fst (script e a)) = Stdout (json_dumps 0 (PList (map hep_doc heps)))"
    by simp
next
  fix h assume "h \<in> set heps"
  with main_loop_Inr[OF assms(3)] have "h \<in> set (List.map_filter (derive (args_node_name a)) nets)"
    by simp
  from map_filter_D[OF this] obtain n where n: "n \<in> set nets" and d: "derive (args_node_name a) n = Some h"
    by blast
  from get_docker_networks_Inr(1)[OF assms(2)] n have q: "qualifies n" by auto
  from derived_entry[OF q d] obtain ls dd b where
    f: "Labels n = Dict ls" "Options n = Dict dd" "map_of dd bridge_key = Some b"
    and h: "h = \<lparr> manifest = hep_manifest b (dict_get ls ''netpol.app'' ''unknown'')
                               (dict_get ls ''netpol.app_id'' ''unknown'')
                               (dict_get ls ''netpol.role'' ''unknown'') (args_node_name a),
                    filename = ''hep-'' @ dict_get ls ''netpol.app'' ''unknown'' @ ''-''
                                 @ dict_get ls ''netpol.role'' ''unknown'' @ ''.yaml'',
                    network_name = Name n, bridge_name = b, labels = ls \<rparr>"
    by blast
  let ?app = "case map_of ls ''netpol.app'' of None \<Rightarrow> ''unknown'' | Some v \<Rightarrow> v"
  let ?role = "case map_of ls ''netpol.role'' of None \<Rightarrow> ''unknown'' | Some v \<Rightarrow> v"
  have 1: "manifest_label (manifest h) ''app'' = Inr (PStr ?app)"
    and 2: "manifest_label (manifest h) ''role'' = Inr (PStr ?role)"
    unfolding h by (simp_all add: manifest_label_hep dict_get_def)
  have 3: "hep_doc h = PDict [
                (''manifest'', manifest h),
                (''filename'', PStr (''hep-'' @ ?app @ ''-'' @ ?role @ ''.yaml'')),
                (''network_name'', PStr (Name n)),
                (''bridge_name'', PStr b),
                (''labels'', PDict (map (\<lambda>kv. (fst kv, PStr (snd kv))) ls))]"
    unfolding h by (simp add: hep_doc_def dict_get_def)
  from n f 1 2 3
  show "\<exists>n\<in>set nets. \<exists>ls d b app_name role_name.
             Labels n = Dict ls \<and> Options n = Dict d \<and> map_of d bridge_key = Some b
           \<and> manifest_label (manifest h) ''app'' = Inr (PStr app_name)
           \<and> manifest_label (manifest h) ''role'' = Inr (PStr role_name)
           \<and> app_name = (case map_of ls ''netpol.app'' of None \<Rightarrow> ''unknown'' | Some v \<Rightarrow> v)
           \<and> role_name = (case map_of ls ''netpol.role'' of None \<Rightarrow> ''unknown'' | Some v \<Rightarrow> v)
           \<and> hep_doc h = PDict [
                (''manifest'', manifest h),
                (''filename'', PStr (''hep-'' @ app_name @ ''-'' @ role_name @ ''.yaml'')),
                (''network_name'', PStr (Name n)),
                (''bridge_name'', PStr b),
                (''labels'', PDict (map (\<lambda>kv. (fst kv, PStr (snd kv))) ls))]"
    by blast
qed

theorem listing_entries_witness:
  "last (fst (script example_env list_args)) = Stdout (json_dumps 0 (PList [hep_doc hep_web]))
   \<and> hep_doc hep_web = PDict [
        (''manifest'', manifest hep_web),
        (''filename'', PStr ''hep-web-unknown.yaml''),
        (''network_name'', PStr ''web_net''),
        (''bridge_name'', PStr ''br-aaa''),
        (''labels'', PDict [(''netpol.app'', PStr ''web'')])]"
proof -
  have m: "\<not> args_apply list_args" by (simp add: list_args_def)
  have d: "hep_doc hep_web = PDict [
        (''manifest'', manifest hep_web),
        (''filename'', PStr ''hep-web-unknown.yaml''),
        (''network_name'', PStr ''web_net''),
        (''bridge_name'', PStr ''br-aaa''),
        (''labels'', PDict [(''netpol.app'', PStr ''web'')])]"
    by (simp add: hep_doc_def hep_web_def)
  from listing_entries[OF m example_networks example_listing_loop] d
  show ?thesis by simp
qed

end
